theory Spec2Isabelle
  imports Main "HOL-Library.AList"
begin

section \<open>Bundle data model\<close>

text \<open>
  Endpoint identifiers as the primary block decodes them (\<^verbatim>\<open>decodeEndpoints\<close>): a
  scheme number and a scheme specific part of dynamic type. The zero value of the Go
  struct is scheme 0 with a nil part.
\<close>

datatype ssp = SspNil | SspUint nat | SspText string | SspIpn nat nat

record EndpointID =
  SchemeName :: nat
  SchemeSpecificPort :: ssp

definition EndpointID_zero :: EndpointID where
  "EndpointID_zero = \<lparr>SchemeName = 0, SchemeSpecificPort = SspNil\<rparr>"

text \<open>
  Modelled from the spec: the constructor of the sentinel \<^verbatim>\<open>dtn:none\<close> is not part
  of the sources. The decoder's comment says that \<^verbatim>\<open>dtn:none\<close> is defined by an
  unsigned integer; the \<^verbatim>\<open>dtn\<close> scheme has number 1.
\<close>

definition DtnNone :: EndpointID where
  "DtnNone = \<lparr>SchemeName = 1, SchemeSpecificPort = SspUint 0\<rparr>"

text \<open>
  Modelled from the spec: the flag constants are not part of the sources. A flag field is
  the set of its raised bits and \<^verbatim>\<open>Has\<close> is membership.
\<close>

datatype BundleControlFlag =
    StatusRequestReception | StatusRequestForward | StatusRequestDelivery
  | StatusRequestDeletion | AdministrativeRecordPayload | MustNotFragmented
  | IsFragment

datatype BlockControlFlag =
    ReplicateBlock | StatusReportBlock | DeleteBundle | RemoveBlock

datatype CRCType = CRCNo | CRC16 | CRC32

record PrimaryBlock =
  Version :: nat
  BundleControlFlags :: "BundleControlFlag set"
  CRCType :: CRCType
  Destination :: EndpointID
  SourceNode :: EndpointID
  ReportTo :: EndpointID
  CreationTimestamp :: "nat \<times> nat"
  Lifetime :: nat
  FragmentOffset :: nat
  TotalDataLength :: nat
  CRC :: nat

definition dtnVersion :: nat where
  "dtnVersion = 7"

text \<open>
  Modelled from the spec: the hop-count block is a pair of a limit and a count; the count
  is incremented, and a count greater than the limit is exceeded. The type and its two
  methods are not part of the sources; the pair is kept as unbounded naturals.
\<close>

record HopCount =
  Limit :: nat
  Count :: nat

definition Increment :: "HopCount \<Rightarrow> HopCount" where
  "Increment hc = hc\<lparr>Count := Count hc + 1\<rparr>"

definition IsExceeded :: "HopCount \<Rightarrow> bool" where
  "IsExceeded hc = (Count hc > Limit hc)"

text \<open>
  Canonical blocks. The block types this node recognises are the four whose payload
  shapes the pipeline reads; every other type code is \<open>OtherBlock\<close>. The data field is
  dynamically typed in the source (\<^verbatim>\<open>interface{}\<close>), so the type of a block and the
  shape of its data are independent.
\<close>

datatype CanonicalBlockType =
    PayloadBlock | PreviousNodeBlock | BundleAgeBlock | HopCountBlock | OtherBlock nat

datatype BlockData =
    Bytes "nat list" | Age nat | Hops HopCount | PrevNode EndpointID

record CanonicalBlock =
  BlockType :: CanonicalBlockType
  BlockNumber :: nat
  BlockControlFlags :: "BlockControlFlag set"
  Data :: BlockData

text \<open>Modelled from the spec: the recognised block types; the function is not part of
  the sources.\<close>

fun isKnownBlockType :: "CanonicalBlockType \<Rightarrow> bool" where
  "isKnownBlockType (OtherBlock n) = False"
| "isKnownBlockType t = True"

record Bundle =
  PrimaryBlock :: PrimaryBlock
  CanonicalBlocks :: "CanonicalBlock list"

text \<open>
  Modelled from the spec: extension-block lookup, not part of the sources. The source
  writes through the result (\<^verbatim>\<open>hcBlock.Data = hc\<close>), so the lookup yields a
  reference into the bundle: here the index of the first block of the type, or
  \<open>None\<close> for the error.
\<close>

primrec ExtensionBlock :: "CanonicalBlock list \<Rightarrow> CanonicalBlockType \<Rightarrow> nat option" where
  "ExtensionBlock [] t = None"
| "ExtensionBlock (cb # cbs) t =
     (if BlockType cb = t then Some 0 else map_option Suc (ExtensionBlock cbs t))"

definition IsAdministrativeRecord :: "Bundle \<Rightarrow> bool" where
  "IsAdministrativeRecord b =
     (AdministrativeRecordPayload \<in> BundleControlFlags (PrimaryBlock b))"

section \<open>Bundle packs, the store and the processing core\<close>

datatype Constraint =
    DispatchPending | ForwardPending | ReassemblyPending | Contraindicated | LocalEndpoint

text \<open>
  In the source a pack holds a pointer to its bundle and a constraint map, so every
  change a stage makes is seen by the caller; the model returns the changed pack.
\<close>

record BundlePack =
  Bundle :: Bundle
  Constraints :: "Constraint set"
  Timestamp :: nat

definition AddConstraint :: "BundlePack \<Rightarrow> Constraint \<Rightarrow> BundlePack" where
  "AddConstraint bp k = bp\<lparr>Constraints := insert k (Constraints bp)\<rparr>"

definition RemoveConstraint :: "BundlePack \<Rightarrow> Constraint \<Rightarrow> BundlePack" where
  "RemoveConstraint bp k = bp\<lparr>Constraints := Constraints bp - {k}\<rparr>"

definition PurgeConstraints :: "BundlePack \<Rightarrow> BundlePack" where
  "PurgeConstraints bp = bp\<lparr>Constraints := {}\<rparr>"

text \<open>
  Modelled from the spec: the identity of a bundle is its source, its creation
  timestamp and, for a fragment only, the fragment offset and total length.
\<close>

type_synonym BundleID = "EndpointID \<times> (nat \<times> nat) \<times> nat \<times> nat"

definition ID :: "BundlePack \<Rightarrow> BundleID" where
  "ID bp =
     (let pb = PrimaryBlock (Bundle bp) in
      if IsFragment \<in> BundleControlFlags pb
      then (SourceNode pb, CreationTimestamp pb, FragmentOffset pb, TotalDataLength pb)
      else (SourceNode pb, CreationTimestamp pb, 0, 0))"

datatype StatusInformationPos =
    ReceivedBundle | ForwardedBundle | DeliveredBundle | DeletedBundle | OtherStatus nat

datatype StatusReportReason =
    NoInformation | LifetimeExpired | ForwardedUnidirectionalLink | TransmissionCanceled
  | DepletedStorage | DestinationEndpointUnintelligible | NoRouteToDestination
  | NoTimelyContact | BlockUnintelligible | HopLimitExceeded | TrafficPared

record StatusReport =
  StatusInformations :: "StatusInformationPos list"
  ReportReason :: StatusReportReason
  RefSourceNode :: EndpointID
  RefTimestamp :: "nat \<times> nat"

record AdministrativeRecord =
  TypeCode :: nat
  Content :: StatusReport

text \<open>
  A convergence sender is an interface value in the source; \<open>sender_ref\<close> stands for
  the identity of the instance behind it.
\<close>

record ConvergenceSender =
  sender_ref :: nat
  Address :: string
  PeerEndpointID :: EndpointID

record ApplicationAgent =
  agent_ref :: nat
  AgentEndpointID :: EndpointID

text \<open>
  What the pipeline does to its collaborators, in program order. The store is kept as a
  value as well; the other collaborators are seen through these calls only.
\<close>

datatype event =
    EvIdKeeperUpdate BundleID
  | EvPush BundlePack
  | EvStatusReport BundleID StatusInformationPos StatusReportReason
  | EvDispatching BundleID
  | EvHopCount HopCount
  | EvLifetimeCheck BundlePack
  | EvUpdateBundleAge nat
  | EvSenderForDestination EndpointID
  | EvRoutingSenderForBundle BundleID
  | EvSend ConvergenceSender Bundle
  | EvClose ConvergenceSender
  | EvRemoveSender ConvergenceSender
  | EvRegisterSender ConvergenceSender
  | EvInspect AdministrativeRecord
  | EvDeliver ApplicationAgent Bundle
  | EvNotifyIncoming BundleID
  | EvMarkedForDeletion BundleID

text \<open>
  The parts of the core a run of the pipeline changes, besides the trace: the store, the
  id keeper and the registry of senders.
\<close>

type_synonym pipeline_state =
  "(BundleID \<times> BundlePack) list \<times> (EndpointID \<times> nat) list \<times> ConvergenceSender list"

text \<open>
  The core. The routing algorithm, the clock behind the lifetime predicate, the outcome
  of a send and the CBOR codec of administrative records are outside the sources and are
  parameters of the state. So is \<open>ReportTransmission\<close>: what handing a status report bundle
  to the pipeline's own transmit entry does to the store, the id keeper and the registry,
  and the events of that run.
\<close>

record Core =
  NodeId :: EndpointID
  Agents :: "ApplicationAgent list"
  inspectAllBundles :: bool
  store :: "(BundleID \<times> BundlePack) list"
  idKeeper :: "(EndpointID \<times> nat) list"
  convergenceSenders :: "ConvergenceSender list"
  now :: nat
  IsLifetimeExceeded :: "PrimaryBlock \<Rightarrow> bool"
  SenderForBundle :: "BundlePack \<Rightarrow> ConvergenceSender list \<times> bool"
  SendFails :: "ConvergenceSender \<Rightarrow> Bundle \<Rightarrow> bool"
  NewAdministrativeRecordFromCbor :: "nat list \<Rightarrow> AdministrativeRecord option"
  AdministrativeRecordToCbor :: "AdministrativeRecord \<Rightarrow> nat list"
  ReportTransmission :: "BundlePack \<Rightarrow> pipeline_state \<Rightarrow> pipeline_state \<times> event list"
  trace :: "event list"

definition emit :: "Core \<Rightarrow> event \<Rightarrow> Core" where
  "emit c e = c\<lparr>trace := trace c @ [e]\<rparr>"

text \<open>Modelled from the spec: the store upserts by bundle identity, and knows an
  identity that has been pushed.\<close>

definition Push :: "Core \<Rightarrow> BundlePack \<Rightarrow> Core" where
  "Push c bp = emit (c\<lparr>store := AList.update (ID bp) bp (store c)\<rparr>) (EvPush bp)"

definition KnowsBundle :: "(BundleID \<times> BundlePack) list \<Rightarrow> BundlePack \<Rightarrow> bool" where
  "KnowsBundle st bp = (map_of st (ID bp) \<noteq> None)"

text \<open>Modelled from the spec: the packs whose identity matches the subject of a status
  report (source node and creation timestamp).\<close>

definition QueryFromStatusReport ::
  "(BundleID \<times> BundlePack) list \<Rightarrow> StatusReport \<Rightarrow> BundlePack list" where
  "QueryFromStatusReport st sr =
     filter (\<lambda>bp. SourceNode (PrimaryBlock (Bundle bp)) = RefSourceNode sr
                 \<and> CreationTimestamp (PrimaryBlock (Bundle bp)) = RefTimestamp sr)
            (map snd st)"

text \<open>Modelled from the spec: an endpoint of this node is the node's own identifier or
  the endpoint of a registered agent.\<close>

definition HasEndpoint :: "Core \<Rightarrow> EndpointID \<Rightarrow> bool" where
  "HasEndpoint c e = (e = NodeId c \<or> e \<in> set (map AgentEndpointID (Agents c)))"

text \<open>
  Modelled from the spec: a status report is itself a bundle. Its source is this node, its
  destination the report-to endpoint of the subject, and its payload the administrative
  record (record type 1) that names the subject and carries the status and the reason. The
  report asks for no status report of its own. The spec gives no lifetime for it; it takes
  the subject's.
\<close>

definition report_record ::
  "BundlePack \<Rightarrow> StatusInformationPos \<Rightarrow> StatusReportReason \<Rightarrow> AdministrativeRecord" where
  "report_record bp status reason =
     \<lparr>TypeCode = 1,
      Content = \<lparr>StatusInformations = [status], ReportReason = reason,
                 RefSourceNode = SourceNode (PrimaryBlock (Bundle bp)),
                 RefTimestamp = CreationTimestamp (PrimaryBlock (Bundle bp))\<rparr>\<rparr>"

definition report_pack ::
  "Core \<Rightarrow> BundlePack \<Rightarrow> StatusInformationPos \<Rightarrow> StatusReportReason \<Rightarrow> BundlePack" where
  "report_pack c bp status reason =
     \<lparr>Bundle =
        \<lparr>PrimaryBlock =
           \<lparr>Version = dtnVersion, BundleControlFlags = {AdministrativeRecordPayload},
            CRCType = CRCNo, Destination = ReportTo (PrimaryBlock (Bundle bp)),
            SourceNode = NodeId c, ReportTo = DtnNone, CreationTimestamp = (now c, 0),
            Lifetime = Lifetime (PrimaryBlock (Bundle bp)), FragmentOffset = 0,
            TotalDataLength = 0, CRC = 0\<rparr>,
         CanonicalBlocks =
           [\<lparr>BlockType = PayloadBlock, BlockNumber = 0, BlockControlFlags = {},
             Data = Bytes (AdministrativeRecordToCbor c (report_record bp status reason))\<rparr>]\<rparr>,
      Constraints = {}, Timestamp = now c\<rparr>"

text \<open>
  Modelled from the spec: emitting a status report builds the report bundle and hands it to
  the transmit entry. The call is recorded with its subject, status and reason; the run of
  the pipeline on the report is \<open>ReportTransmission\<close>, which gives the store, the id keeper
  and the registry it leaves and the events it adds. \<open>transmit_report\<close> below is that run
  for the pipeline of this theory.
\<close>

definition SendStatusReport ::
  "Core \<Rightarrow> BundlePack \<Rightarrow> StatusInformationPos \<Rightarrow> StatusReportReason \<Rightarrow> Core" where
  "SendStatusReport c bp status reason =
     (let c1 = emit c (EvStatusReport (ID bp) status reason);
          ((st, ik, css), evs) =
            ReportTransmission c (report_pack c bp status reason)
              (store c, idKeeper c, convergenceSenders c)
      in c1\<lparr>store := st, idKeeper := ik, convergenceSenders := css, trace := trace c1 @ evs\<rparr>)"

text \<open>
  Modelled from the spec: the id keeper maps a source to the highest sequence number
  issued and gives a bundle the next one when its own collides with one seen.
\<close>

definition idKeeper_update_pack :: "Core \<Rightarrow> BundlePack \<Rightarrow> BundlePack \<times> Core" where
  "idKeeper_update_pack c bp =
     (let pb = PrimaryBlock (Bundle bp);
          src = SourceNode pb;
          (t, s) = CreationTimestamp pb;
          s' = (case map_of (idKeeper c) src of
                  None \<Rightarrow> s
                | Some hi \<Rightarrow> if s \<le> hi then hi + 1 else s);
          bp' = bp\<lparr>Bundle := (Bundle bp)\<lparr>PrimaryBlock := pb\<lparr>CreationTimestamp := (t, s')\<rparr>\<rparr>\<rparr>
      in (bp', emit (c\<lparr>idKeeper := AList.update src s' (idKeeper c)\<rparr>)
                    (EvIdKeeperUpdate (ID bp'))))"

section \<open>The processing pipeline\<close>

definition bundleContraindicated :: "Core \<Rightarrow> BundlePack \<Rightarrow> BundlePack \<times> Core" where
  "bundleContraindicated c bp =
     (let bp1 = AddConstraint bp Contraindicated in (bp1, Push c bp1))"

definition bundleDeletion ::
  "Core \<Rightarrow> BundlePack \<Rightarrow> StatusReportReason \<Rightarrow> BundlePack \<times> Core" where
  "bundleDeletion c bp reason =
     (let c1 = (if StatusRequestDeletion \<in> BundleControlFlags (PrimaryBlock (Bundle bp))
                then SendStatusReport c bp DeletedBundle reason else c);
          bp1 = PurgeConstraints bp;
          c2 = Push c1 bp1
      in (bp1, emit c2 (EvMarkedForDeletion (ID bp1))))"

text \<open>
  The two type assertions of the pipeline (\<^verbatim>\<open>Data.(bundle.HopCount)\<close>,
  \<^verbatim>\<open>Data.([]byte)\<close>) and an index out of range panic in the source.
\<close>

datatype panic = TypeAssertion | IndexOutOfRange

text \<open>Lines 113 to 126 of the forward stage: the hop count is copied out of its block,
  incremented, written back, and then tested.\<close>

definition forward_hop_count ::
  "Core \<Rightarrow> BundlePack \<Rightarrow> panic + (bool \<times> BundlePack \<times> Core)" where
  "forward_hop_count c bp =
     (let cbs = CanonicalBlocks (Bundle bp) in
      case ExtensionBlock cbs HopCountBlock of
        None \<Rightarrow> Inr (False, bp, c)
      | Some i \<Rightarrow>
          (case Data (cbs ! i) of
             Hops hc0 \<Rightarrow>
               (let hc = Increment hc0;
                    bp1 = bp\<lparr>Bundle := (Bundle bp)
                            \<lparr>CanonicalBlocks := cbs[i := (cbs ! i)\<lparr>Data := Hops hc\<rparr>]\<rparr>\<rparr>
                in Inr (IsExceeded hc, bp1, emit c (EvHopCount hc)))
           | _ \<Rightarrow> Inl TypeAssertion))"

text \<open>
  Modelled from the spec: the bundle-age block, if present, is updated in place; the
  method is not part of the sources. The age grows by the time the pack has spent at this
  node. The error of the source is \<open>None\<close>.
\<close>

definition UpdateBundleAge :: "Core \<Rightarrow> BundlePack \<Rightarrow> (nat \<times> BundlePack) option" where
  "UpdateBundleAge c bp =
     (let cbs = CanonicalBlocks (Bundle bp) in
      case ExtensionBlock cbs BundleAgeBlock of
        None \<Rightarrow> None
      | Some i \<Rightarrow>
          (case Data (cbs ! i) of
             Age a \<Rightarrow>
               (let a' = a + (now c - Timestamp bp) in
                Some (a', bp\<lparr>Bundle := (Bundle bp)
                            \<lparr>CanonicalBlocks := cbs[i := (cbs ! i)\<lparr>Data := Age a'\<rparr>]\<rparr>\<rparr>))
           | _ \<Rightarrow> None))"

text \<open>Modelled from the spec: a sender is eligible for a destination when its peer
  endpoint is that destination; the registry keeps its senders in a list.\<close>

definition senderForDestination :: "Core \<Rightarrow> EndpointID \<Rightarrow> ConvergenceSender list" where
  "senderForDestination c e = filter (\<lambda>cs. PeerEndpointID cs = e) (convergenceSenders c)"

definition RemoveConvergenceSender :: "Core \<Rightarrow> ConvergenceSender \<Rightarrow> Core" where
  "RemoveConvergenceSender c cs =
     emit (c\<lparr>convergenceSenders := removeAll cs (convergenceSenders c)\<rparr>) (EvRemoveSender cs)"

definition RegisterConvergenceSender :: "Core \<Rightarrow> ConvergenceSender \<Rightarrow> Core" where
  "RegisterConvergenceSender c cs =
     emit (c\<lparr>convergenceSenders := convergenceSenders c @ [cs]\<rparr>) (EvRegisterSender cs)"

text \<open>
  Lines 167 to 189: one send per candidate. The source runs the attempts as goroutines and
  waits for all of them; the model runs them in the order of the list. The flag is the
  disjunction of the successes, and the steps of one attempt keep their order.
\<close>

fun fan_out :: "Bundle \<Rightarrow> ConvergenceSender list \<Rightarrow> bool \<times> Core \<Rightarrow> bool \<times> Core" where
  "fan_out b [] (bundleSent, c) = (bundleSent, c)"
| "fan_out b (node # nodes) (bundleSent, c) =
     (let c1 = emit c (EvSend node b) in
      if SendFails c node b
      then fan_out b nodes
             (bundleSent,
              RegisterConvergenceSender (RemoveConvergenceSender (emit c1 (EvClose node)) node) node)
      else fan_out b nodes (True, c1))"

text \<open>Lines 256 to 276: the body of the loop over the status informations, on the core
  and the subject's pack.\<close>

fun inspect_item :: "Core \<times> BundlePack \<Rightarrow> StatusInformationPos \<Rightarrow> Core \<times> BundlePack" where
  "inspect_item (c, bp) ReceivedBundle = (c, bp)"
| "inspect_item (c, bp) ForwardedBundle = (c, bp)"
| "inspect_item (c, bp) DeliveredBundle =
     (let bp1 = PurgeConstraints bp in (Push c bp1, bp1))"
| "inspect_item (c, bp) DeletedBundle = (c, bp)"
| "inspect_item (c, bp) (OtherStatus n) = (c, bp)"

definition inspectStatusReport :: "Core \<Rightarrow> AdministrativeRecord \<Rightarrow> Core" where
  "inspectStatusReport c ar =
     (let status = Content ar;
          sips = StatusInformations status in
      if length sips = 0 then c
      else
        (let bps = QueryFromStatusReport (store c) status in
         if length bps \<noteq> 1 then c
         else fst (foldl inspect_item (c, hd bps) sips)))"

definition checkAdministrativeRecord :: "Core \<Rightarrow> BundlePack \<Rightarrow> panic + (bool \<times> Core)" where
  "checkAdministrativeRecord c bp =
     (if \<not> IsAdministrativeRecord (Bundle bp) then Inr (False, c)
      else
        (let cbs = CanonicalBlocks (Bundle bp) in
         case ExtensionBlock cbs PayloadBlock of
           None \<Rightarrow> Inr (False, c)
         | Some i \<Rightarrow>
             (case Data (cbs ! i) of
                Bytes raw \<Rightarrow>
                  (case NewAdministrativeRecordFromCbor c raw of
                     None \<Rightarrow> Inr (False, c)
                   | Some ar \<Rightarrow> Inr (True, inspectStatusReport (emit c (EvInspect ar)) ar))
              | _ \<Rightarrow> Inl TypeAssertion)))"

text \<open>Lines 145 to 206 of the forward stage: choice of the senders, fan-out, and the
  state after it.\<close>

definition forward_send :: "Core \<Rightarrow> BundlePack \<Rightarrow> panic + (BundlePack \<times> Core)" where
  "forward_send c bp =
     (let dst = Destination (PrimaryBlock (Bundle bp));
          direct = senderForDestination c dst;
          c1 = emit c (EvSenderForDestination dst);
          (nodes, deleteAfterwards, c2) =
            (if direct = []
             then (fst (SenderForBundle c bp), snd (SenderForBundle c bp),
                   emit c1 (EvRoutingSenderForBundle (ID bp)))
             else (direct, True, c1))
      in if nodes = [] then Inr (bundleContraindicated c2 bp)
         else
           (let (bundleSent, c3) = fan_out (Bundle bp) nodes (False, c2) in
            if bundleSent
            then
              (let c4 = (if StatusRequestForward \<in> BundleControlFlags (PrimaryBlock (Bundle bp))
                         then SendStatusReport c3 bp ForwardedBundle NoInformation else c3)
               in if deleteAfterwards
                  then (let bp1 = PurgeConstraints bp in Inr (bp1, Push c4 bp1))
                  else if inspectAllBundles c4 \<and> IsAdministrativeRecord (Bundle bp)
                  then (let (bp1, c5) = bundleContraindicated c4 bp in
                        case checkAdministrativeRecord c5 bp1 of
                          Inl p \<Rightarrow> Inl p
                        | Inr (ok, c6) \<Rightarrow> Inr (bp1, c6))
                  else Inr (bp, c4))
            else Inr (bundleContraindicated c3 bp)))"

definition forward :: "Core \<Rightarrow> BundlePack \<Rightarrow> panic + (BundlePack \<times> Core)" where
  "forward c bp =
     (let bp1 = RemoveConstraint (AddConstraint bp ForwardPending) DispatchPending;
          c1 = Push c bp1 in
      case forward_hop_count c1 bp1 of
        Inl p \<Rightarrow> Inl p
      | Inr (exceeded, bp2, c2) \<Rightarrow>
          if exceeded then Inr (bundleDeletion c2 bp2 HopLimitExceeded)
          else
            (let c3 = emit c2 (EvLifetimeCheck bp2) in
             if IsLifetimeExceeded c3 (PrimaryBlock (Bundle bp2))
             then Inr (bundleDeletion c3 bp2 LifetimeExpired)
             else
               (case UpdateBundleAge c3 bp2 of
                  Some (age, bp3) \<Rightarrow>
                    (let c4 = emit c3 (EvUpdateBundleAge age) in
                     if age \<ge> Lifetime (PrimaryBlock (Bundle bp3))
                     then Inr (bundleDeletion c4 bp3 LifetimeExpired)
                     else forward_send c4 bp3)
                | None \<Rightarrow> forward_send c3 bp2)))"

definition localDelivery :: "Core \<Rightarrow> BundlePack \<Rightarrow> panic + (BundlePack \<times> Core)" where
  "localDelivery c bp =
     (case (if IsAdministrativeRecord (Bundle bp)
            then checkAdministrativeRecord c bp else Inr (True, c)) of
        Inl p \<Rightarrow> Inl p
      | Inr (ok, c1) \<Rightarrow>
          if \<not> ok then Inr (bundleDeletion c1 bp NoInformation)
          else
            (let dst = Destination (PrimaryBlock (Bundle bp));
                 c2 = foldl (\<lambda>c' agent. if AgentEndpointID agent = dst
                                          then emit c' (EvDeliver agent (Bundle bp)) else c')
                            c1 (Agents c1);
                 c3 = emit c2 (EvNotifyIncoming (ID bp));
                 c4 = (if StatusRequestDelivery \<in> BundleControlFlags (PrimaryBlock (Bundle bp))
                       then SendStatusReport c3 bp DeliveredBundle NoInformation else c3);
                 bp1 = PurgeConstraints bp
             in Inr (bp1, Push c4 bp1)))"

definition dispatching :: "Core \<Rightarrow> BundlePack \<Rightarrow> panic + (BundlePack \<times> Core)" where
  "dispatching c bp =
     (let c1 = emit c (EvDispatching (ID bp)) in
      if HasEndpoint c1 (Destination (PrimaryBlock (Bundle bp)))
      then localDelivery c1 bp else forward c1 bp)"

definition transmit :: "Core \<Rightarrow> BundlePack \<Rightarrow> panic + (BundlePack \<times> Core)" where
  "transmit c bp0 =
     (let (bp, c1) = idKeeper_update_pack c bp0;
          bp1 = AddConstraint bp DispatchPending;
          c2 = Push c1 bp1;
          src = SourceNode (PrimaryBlock (Bundle bp1)) in
      if src \<noteq> DtnNone \<and> \<not> HasEndpoint c2 src
      then Inr (bundleDeletion c2 bp1 NoInformation)
      else dispatching c2 bp1)"

text \<open>
  Lines 57 to 89: the walk over the canonical blocks, from the highest index down. The
  first argument is one more than the index of the block looked at; the flag of the
  result says that the bundle was deleted and the stage ended.
\<close>

fun receive_walk :: "nat \<Rightarrow> Core \<Rightarrow> BundlePack \<Rightarrow> panic + (bool \<times> BundlePack \<times> Core)" where
  "receive_walk 0 c bp = Inr (False, bp, c)"
| "receive_walk (Suc i) c bp =
     (let cbs = CanonicalBlocks (Bundle bp) in
      if \<not> i < length cbs then Inl IndexOutOfRange
      else
        (let cb = cbs ! i in
         if isKnownBlockType (BlockType cb) then receive_walk i c bp
         else
           (let c1 = (if StatusReportBlock \<in> BlockControlFlags cb
                      then SendStatusReport c bp ReceivedBundle BlockUnintelligible else c)
            in if DeleteBundle \<in> BlockControlFlags cb
               then (let (bp1, c2) = bundleDeletion c1 bp BlockUnintelligible
                     in Inr (True, bp1, c2))
               else if RemoveBlock \<in> BlockControlFlags cb
               then receive_walk i c1
                      (bp\<lparr>Bundle := (Bundle bp)
                            \<lparr>CanonicalBlocks := take i cbs @ drop (Suc i) cbs\<rparr>\<rparr>)
               else receive_walk i c1 bp)))"

definition receive :: "Core \<Rightarrow> BundlePack \<Rightarrow> panic + (BundlePack \<times> Core)" where
  "receive c bp =
     (if KnowsBundle (store c) bp then Inr (bp, c)
      else
        (let bp1 = AddConstraint bp DispatchPending;
             c1 = Push c bp1;
             c2 = (if StatusRequestReception \<in> BundleControlFlags (PrimaryBlock (Bundle bp1))
                   then SendStatusReport c1 bp1 ReceivedBundle NoInformation else c1)
         in case receive_walk (length (CanonicalBlocks (Bundle bp1))) c2 bp1 of
              Inl p \<Rightarrow> Inl p
            | Inr (deleted, bp2, c3) \<Rightarrow>
                if deleted then Inr (bp2, c3) else dispatching c3 bp2))"

text \<open>
  The transmission of a report by this pipeline: the report is handed to \<open>transmit\<close> on the
  core with the given store, id keeper and registry. A report asks for no status report, so
  the run needs no transmission of its own, and its payload block carries bytes, so the run
  returns: both are proved below (\<open>transmit_report_fixed\<close>, \<open>transmit_report_pack_returns\<close>),
  and the branch of the panic is never taken on a report. \<open>reporting\<close> is a core whose
  reports travel this way.
\<close>

definition no_transmission :: "BundlePack \<Rightarrow> pipeline_state \<Rightarrow> pipeline_state \<times> event list" where
  "no_transmission rp s = (s, [])"

definition transmit_report ::
  "Core \<Rightarrow> BundlePack \<Rightarrow> pipeline_state \<Rightarrow> pipeline_state \<times> event list" where
  "transmit_report c rp s =
     (case s of (st, ik, css) \<Rightarrow>
        (case transmit (c\<lparr>store := st, idKeeper := ik, convergenceSenders := css,
                          ReportTransmission := no_transmission, trace := []\<rparr>) rp of
           Inl p \<Rightarrow> (s, [])
         | Inr (bp', c') \<Rightarrow> ((store c', idKeeper c', convergenceSenders c'), trace c')))"

definition reporting :: "Core \<Rightarrow> Core" where
  "reporting c = c\<lparr>ReportTransmission := transmit_report c\<rparr>"

section \<open>The bundle builder\<close>

record BundleBuilder =
  err :: "string option"
  primary :: PrimaryBlock
  canonicals :: "CanonicalBlock list"
  canonicalCounter :: nat
  crcType :: CRCType

definition PrimaryBlock_zero :: PrimaryBlock where
  "PrimaryBlock_zero =
     \<lparr>Version = 0, BundleControlFlags = {}, CRCType = CRCNo,
      Destination = EndpointID_zero, SourceNode = EndpointID_zero, ReportTo = EndpointID_zero,
      CreationTimestamp = (0, 0), Lifetime = 0, FragmentOffset = 0, TotalDataLength = 0,
      CRC = 0\<rparr>"

definition Builder :: BundleBuilder where
  "Builder =
     \<lparr>err = None, primary = PrimaryBlock_zero\<lparr>Version := dtnVersion\<rparr>, canonicals = [],
      canonicalCounter = 1, crcType = CRCNo\<rparr>"

text \<open>The builder's endpoint arguments are dynamically typed: an endpoint, a string to
  be parsed, or anything else. The URI parser is outside the sources and is a parameter.\<close>

datatype eid_arg = ArgEndpoint EndpointID | ArgString string | ArgOther

fun bldrParseEndpoint :: "(string \<Rightarrow> string + EndpointID) \<Rightarrow> eid_arg \<Rightarrow> string + EndpointID" where
  "bldrParseEndpoint NewEndpointID (ArgEndpoint e) = Inr e"
| "bldrParseEndpoint NewEndpointID (ArgString u) = NewEndpointID u"
| "bldrParseEndpoint NewEndpointID ArgOther = Inl ''neither an EndpointID nor a string''"

definition Destination_set ::
  "(string \<Rightarrow> string + EndpointID) \<Rightarrow> BundleBuilder \<Rightarrow> eid_arg \<Rightarrow> BundleBuilder" where
  "Destination_set NewEndpointID bldr eid =
     (if err bldr \<noteq> None then bldr
      else case bldrParseEndpoint NewEndpointID eid of
             Inl e \<Rightarrow> bldr\<lparr>err := Some e\<rparr>
           | Inr e \<Rightarrow> bldr\<lparr>primary := (primary bldr)\<lparr>Destination := e\<rparr>\<rparr>)"

definition Source_set ::
  "(string \<Rightarrow> string + EndpointID) \<Rightarrow> BundleBuilder \<Rightarrow> eid_arg \<Rightarrow> BundleBuilder" where
  "Source_set NewEndpointID bldr eid =
     (if err bldr \<noteq> None then bldr
      else case bldrParseEndpoint NewEndpointID eid of
             Inl e \<Rightarrow> bldr\<lparr>err := Some e\<rparr>
           | Inr e \<Rightarrow> bldr\<lparr>primary := (primary bldr)\<lparr>SourceNode := e\<rparr>\<rparr>)"

definition ReportTo_set ::
  "(string \<Rightarrow> string + EndpointID) \<Rightarrow> BundleBuilder \<Rightarrow> eid_arg \<Rightarrow> BundleBuilder" where
  "ReportTo_set NewEndpointID bldr eid =
     (if err bldr \<noteq> None then bldr
      else case bldrParseEndpoint NewEndpointID eid of
             Inl e \<Rightarrow> bldr\<lparr>err := Some e\<rparr>
           | Inr e \<Rightarrow> bldr\<lparr>primary := (primary bldr)\<lparr>ReportTo := e\<rparr>\<rparr>)"

text \<open>
  The constructor \<^verbatim>\<open>NewBundle\<close> and the two CRC methods are outside the sources. The
  call site shows that the constructor takes the primary block and the canonical blocks
  and may return an error; the bundle is assembled from the two parts, and the validity
  rules and the checksum are parameters.
\<close>

definition NewBundle ::
  "(Bundle \<Rightarrow> string option) \<Rightarrow> PrimaryBlock \<Rightarrow> CanonicalBlock list \<Rightarrow> string + Bundle" where
  "NewBundle checkValid p cs =
     (let b = \<lparr>PrimaryBlock = p, CanonicalBlocks = cs\<rparr> in
      case checkValid b of None \<Rightarrow> Inr b | Some e \<Rightarrow> Inl e)"

definition SetCRCType :: "Bundle \<Rightarrow> CRCType \<Rightarrow> Bundle" where
  "SetCRCType b t = b\<lparr>PrimaryBlock := (PrimaryBlock b)\<lparr>CRCType := t\<rparr>\<rparr>"

definition CalculateCRC :: "(Bundle \<Rightarrow> nat) \<Rightarrow> Bundle \<Rightarrow> Bundle" where
  "CalculateCRC checksum b =
     (if CRCType (PrimaryBlock b) = CRCNo then b
      else b\<lparr>PrimaryBlock := (PrimaryBlock b)\<lparr>CRC := checksum b\<rparr>\<rparr>)"

text \<open>\<^verbatim>\<open>Build\<close> works on a pointer: the default it stores in the report-to field stays
  in the builder, which is returned beside the result.\<close>

definition Build ::
  "(Bundle \<Rightarrow> string option) \<Rightarrow> (Bundle \<Rightarrow> nat) \<Rightarrow> BundleBuilder
     \<Rightarrow> (string + Bundle) \<times> BundleBuilder" where
  "Build checkValid checksum bldr =
     (case err bldr of
        Some e \<Rightarrow> (Inl e, bldr)
      | None \<Rightarrow>
          (let bldr1 = (if ReportTo (primary bldr) = EndpointID_zero
                        then bldr\<lparr>primary := (primary bldr)\<lparr>ReportTo := SourceNode (primary bldr)\<rparr>\<rparr>
                        else bldr)
           in if SourceNode (primary bldr1) = EndpointID_zero
                 \<or> Destination (primary bldr1) = EndpointID_zero
              then (Inl ''Both Source and Destination must be set'', bldr1)
              else
                (case NewBundle checkValid (primary bldr1) (canonicals bldr1) of
                   Inl e \<Rightarrow> (Inl e, bldr1)
                 | Inr bndl \<Rightarrow>
                     (Inr (CalculateCRC checksum (SetCRCType bndl (crcType bldr1))), bldr1))))"

section \<open>Notions used by the properties\<close>

text \<open>The calls that consult or use a sender.\<close>

fun sender_event :: "event \<Rightarrow> bool" where
  "sender_event (EvSenderForDestination e) = True"
| "sender_event (EvRoutingSenderForBundle i) = True"
| "sender_event (EvSend cs b) = True"
| "sender_event e = False"

text \<open>What the stage appended to the trace.\<close>

definition new_events :: "Core \<Rightarrow> Core \<Rightarrow> event list" where
  "new_events c c' = drop (length (trace c)) (trace c')"

text \<open>The hop count a bundle carries: the data of the block the lookup finds.\<close>

definition hop_count :: "BundlePack \<Rightarrow> HopCount option" where
  "hop_count bp =
     (let cbs = CanonicalBlocks (Bundle bp) in
      case ExtensionBlock cbs HopCountBlock of
        None \<Rightarrow> None
      | Some i \<Rightarrow> (case Data (cbs ! i) of Hops hc \<Rightarrow> Some hc | _ \<Rightarrow> None))"

text \<open>A payload block carries bytes: what the decoder of the wire format produces, and
  what the type assertion on the payload relies on.\<close>

definition payload_is_bytes :: "BundlePack \<Rightarrow> bool" where
  "payload_is_bytes bp =
     (let cbs = CanonicalBlocks (Bundle bp) in
      case ExtensionBlock cbs PayloadBlock of
        None \<Rightarrow> True
      | Some i \<Rightarrow> (case Data (cbs ! i) of Bytes raw \<Rightarrow> True | _ \<Rightarrow> False))"

text \<open>The pack after \<open>n\<close> passes through the forward stage, each pass starting from the
  pack and the core the one before left.\<close>

fun forward_passes :: "nat \<Rightarrow> Core \<Rightarrow> BundlePack \<Rightarrow> panic + (BundlePack \<times> Core)" where
  "forward_passes 0 c bp = Inr (bp, c)"
| "forward_passes (Suc n) c bp =
     (case forward_passes n c bp of
        Inl p \<Rightarrow> Inl p
      | Inr (bp', c') \<Rightarrow> forward c' bp')"

text \<open>The senders the forward stage tries: the direct ones, or else the routing
  algorithm's.\<close>

definition candidates :: "Core \<Rightarrow> BundlePack \<Rightarrow> ConvergenceSender list" where
  "candidates c bp =
     (let direct = senderForDestination c (Destination (PrimaryBlock (Bundle bp))) in
      if direct = [] then fst (SenderForBundle c bp) else direct)"

text \<open>An unknown block that asks to be removed and does not ask for the bundle's
  deletion, and an unknown block that asks for the deletion.\<close>

definition removal_requested :: "CanonicalBlock \<Rightarrow> bool" where
  "removal_requested cb =
     (\<not> isKnownBlockType (BlockType cb) \<and> RemoveBlock \<in> BlockControlFlags cb
      \<and> DeleteBundle \<notin> BlockControlFlags cb)"

definition deletion_requested :: "CanonicalBlock \<Rightarrow> bool" where
  "deletion_requested cb =
     (\<not> isKnownBlockType (BlockType cb) \<and> DeleteBundle \<in> BlockControlFlags cb)"

text \<open>What the emission of a status report appends to the trace: the call and the events
  of the report's own run through the pipeline. And what a deletion appends: the report,
  if the bundle asks for it, the push and the mark.\<close>

definition report_events ::
  "Core \<Rightarrow> BundlePack \<Rightarrow> StatusInformationPos \<Rightarrow> StatusReportReason \<Rightarrow> event list" where
  "report_events c bp status reason =
     EvStatusReport (ID bp) status reason
     # snd (ReportTransmission c (report_pack c bp status reason)
              (store c, idKeeper c, convergenceSenders c))"

definition deletion_events :: "Core \<Rightarrow> BundlePack \<Rightarrow> StatusReportReason \<Rightarrow> event list" where
  "deletion_events c bp reason =
     (if StatusRequestDeletion \<in> BundleControlFlags (PrimaryBlock (Bundle bp))
      then report_events c bp DeletedBundle reason else [])
     @ [EvPush (PurgeConstraints bp), EvMarkedForDeletion (ID bp)]"

text \<open>A pack with its canonical blocks replaced, and the blocks of the pack a stage
  returns.\<close>

definition set_blocks :: "BundlePack \<Rightarrow> CanonicalBlock list \<Rightarrow> BundlePack" where
  "set_blocks bp cbs = bp\<lparr>Bundle := (Bundle bp)\<lparr>CanonicalBlocks := cbs\<rparr>\<rparr>"

definition returned_blocks :: "panic + (BundlePack \<times> Core) \<Rightarrow> CanonicalBlock list option" where
  "returned_blocks r =
     (case r of Inl p \<Rightarrow> None | Inr (bp, c) \<Rightarrow> Some (CanonicalBlocks (Bundle bp)))"

text \<open>The senders closed and the senders registered, as the trace has them.\<close>

fun closed_senders :: "event list \<Rightarrow> ConvergenceSender list" where
  "closed_senders [] = []"
| "closed_senders (EvClose cs # es) = cs # closed_senders es"
| "closed_senders (e # es) = closed_senders es"

fun registered_senders :: "event list \<Rightarrow> ConvergenceSender list" where
  "registered_senders [] = []"
| "registered_senders (EvRegisterSender cs # es) = cs # registered_senders es"
| "registered_senders (e # es) = registered_senders es"

text \<open>What one attempt of the fan-out appends to the trace: the send, and after a failed
  send the close, the removal and the registration of the sender.\<close>

definition attempt_events :: "Core \<Rightarrow> Bundle \<Rightarrow> ConvergenceSender \<Rightarrow> event list" where
  "attempt_events c b node =
     (if SendFails c node b
      then [EvSend node b, EvClose node, EvRemoveSender node, EvRegisterSender node]
      else [EvSend node b])"

text \<open>The trace and the registry of the core a stage returns.\<close>

definition returned_trace :: "panic + (BundlePack \<times> Core) \<Rightarrow> event list" where
  "returned_trace r = (case r of Inl p \<Rightarrow> [] | Inr (bp, c) \<Rightarrow> trace c)"

definition returned_senders :: "panic + (BundlePack \<times> Core) \<Rightarrow> ConvergenceSender list" where
  "returned_senders r = (case r of Inl p \<Rightarrow> [] | Inr (bp, c) \<Rightarrow> convergenceSenders c)"

definition returned_constraints :: "panic + (BundlePack \<times> Core) \<Rightarrow> Constraint set" where
  "returned_constraints r = (case r of Inl p \<Rightarrow> {} | Inr (bp, c) \<Rightarrow> Constraints bp)"

section \<open>Scenarios\<close>

definition ep_self :: EndpointID where
  "ep_self = \<lparr>SchemeName = 1, SchemeSpecificPort = SspText ''//self/''\<rparr>"

definition ep_peer :: EndpointID where
  "ep_peer = \<lparr>SchemeName = 1, SchemeSpecificPort = SspText ''//peer/''\<rparr>"

definition ep_elsewhere :: EndpointID where
  "ep_elsewhere = \<lparr>SchemeName = 1, SchemeSpecificPort = SspText ''//elsewhere/''\<rparr>"

definition sender1 :: ConvergenceSender where
  "sender1 = \<lparr>sender_ref = 1, Address = ''peer:4556'', PeerEndpointID = ep_peer\<rparr>"

definition agent1 :: ApplicationAgent where
  "agent1 = \<lparr>agent_ref = 1, AgentEndpointID = ep_self\<rparr>"

text \<open>A node with one sender, towards the peer, whose sends fail when \<open>fails\<close> holds.\<close>

definition this_node :: "bool \<Rightarrow> Core" where
  "this_node fails =
     \<lparr>NodeId = ep_self, Agents = [agent1], inspectAllBundles = False, store = [],
      idKeeper = [], convergenceSenders = [sender1], now = 5,
      IsLifetimeExceeded = (\<lambda>pb. False),
      SenderForBundle = (\<lambda>bp. ([], False)),
      SendFails = (\<lambda>cs b. fails),
      NewAdministrativeRecordFromCbor = (\<lambda>raw. None),
      AdministrativeRecordToCbor = (\<lambda>ar. [1]),
      ReportTransmission = no_transmission,
      trace = []\<rparr>"

definition primary_to :: "EndpointID \<Rightarrow> EndpointID \<Rightarrow> BundleControlFlag set \<Rightarrow> PrimaryBlock" where
  "primary_to dst src flags =
     \<lparr>Version = 7, BundleControlFlags = flags, CRCType = CRCNo, Destination = dst,
      SourceNode = src, ReportTo = src, CreationTimestamp = (10, 0), Lifetime = 3600,
      FragmentOffset = 0, TotalDataLength = 0, CRC = 0\<rparr>"

definition payload_block :: CanonicalBlock where
  "payload_block =
     \<lparr>BlockType = PayloadBlock, BlockNumber = 0, BlockControlFlags = {}, Data = Bytes [104, 105]\<rparr>"

definition hop_block :: "nat \<Rightarrow> nat \<Rightarrow> CanonicalBlock" where
  "hop_block l k =
     \<lparr>BlockType = HopCountBlock, BlockNumber = 1, BlockControlFlags = {},
      Data = Hops \<lparr>Limit = l, Count = k\<rparr>\<rparr>"

definition age_block :: "nat \<Rightarrow> CanonicalBlock" where
  "age_block a =
     \<lparr>BlockType = BundleAgeBlock, BlockNumber = 2, BlockControlFlags = {}, Data = Age a\<rparr>"

definition unknown_block :: "nat \<Rightarrow> BlockControlFlag set \<Rightarrow> CanonicalBlock" where
  "unknown_block n flags =
     \<lparr>BlockType = OtherBlock 200, BlockNumber = n, BlockControlFlags = flags, Data = Bytes []\<rparr>"

definition pack :: "PrimaryBlock \<Rightarrow> CanonicalBlock list \<Rightarrow> BundlePack" where
  "pack pb cbs =
     \<lparr>Bundle = \<lparr>PrimaryBlock = pb, CanonicalBlocks = cbs\<rparr>, Constraints = {}, Timestamp = 2\<rparr>"

definition waiting_pack :: BundlePack where
  "waiting_pack =
     (pack (primary_to ep_peer ep_elsewhere {}) [payload_block])\<lparr>Constraints := {ForwardPending}\<rparr>"

definition holding :: "Core \<Rightarrow> BundlePack \<Rightarrow> Core" where
  "holding c bp = c\<lparr>store := [(ID bp, bp)]\<rparr>"

definition delivered_report :: AdministrativeRecord where
  "delivered_report =
     \<lparr>TypeCode = 1,
      Content = \<lparr>StatusInformations = [ReceivedBundle, DeliveredBundle],
                 ReportReason = NoInformation, RefSourceNode = ep_elsewhere,
                 RefTimestamp = (10, 0)\<rparr>\<rparr>"

text \<open>A validity rule for the bundle constructor, from the data model of the spec: the
  sentinel \<^verbatim>\<open>dtn:none\<close> is never legal as a destination.\<close>

definition check_destination :: "Bundle \<Rightarrow> string option" where
  "check_destination b =
     (if Destination (PrimaryBlock b) = DtnNone
      then Some ''destination must not be dtn:none'' else None)"

definition no_parser :: "string \<Rightarrow> string + EndpointID" where
  "no_parser u = Inl ''not an endpoint''"

text \<open>The builder after \<^verbatim>\<open>Builder().Source(ep_self).Destination(dst)\<close>.\<close>

definition builder_to :: "EndpointID \<Rightarrow> BundleBuilder" where
  "builder_to dst =
     Destination_set no_parser (Source_set no_parser Builder (ArgEndpoint ep_self)) (ArgEndpoint dst)"

section \<open>Basic facts about packs and the core\<close>


lemma ID_simps [simp]:
  "ID (AddConstraint bp k) = ID bp"
  "ID (RemoveConstraint bp k) = ID bp"
  "ID (PurgeConstraints bp) = ID bp"
  by (simp_all add: ID_def AddConstraint_def RemoveConstraint_def PurgeConstraints_def)

lemma Bundle_simps [simp]:
  "Bundle (AddConstraint bp k) = Bundle bp"
  "Bundle (RemoveConstraint bp k) = Bundle bp"
  "Bundle (PurgeConstraints bp) = Bundle bp"
  by (simp_all add: AddConstraint_def RemoveConstraint_def PurgeConstraints_def)

lemma Constraints_simps [simp]:
  "Constraints (AddConstraint bp k) = insert k (Constraints bp)"
  "Constraints (RemoveConstraint bp k) = Constraints bp - {k}"
  "Constraints (PurgeConstraints bp) = {}"
  by (simp_all add: AddConstraint_def RemoveConstraint_def PurgeConstraints_def)

lemma Purge_absorb [simp]:
  "PurgeConstraints (AddConstraint bp k) = PurgeConstraints bp"
  "PurgeConstraints (RemoveConstraint bp k) = PurgeConstraints bp"
  "PurgeConstraints (PurgeConstraints bp) = PurgeConstraints bp"
  by (simp_all add: AddConstraint_def RemoveConstraint_def PurgeConstraints_def)

lemma emit_more_fields [simp]:
  "idKeeper (emit c e) = idKeeper c"
  "ReportTransmission (emit c e) = ReportTransmission c"
  "AdministrativeRecordToCbor (emit c e) = AdministrativeRecordToCbor c"
  by (simp_all add: emit_def)

lemma emit_fields [simp]:
  "trace (emit c e) = trace c @ [e]"
  "store (emit c e) = store c"
  "NodeId (emit c e) = NodeId c"
  "Agents (emit c e) = Agents c"
  "convergenceSenders (emit c e) = convergenceSenders c"
  "inspectAllBundles (emit c e) = inspectAllBundles c"
  "IsLifetimeExceeded (emit c e) = IsLifetimeExceeded c"
  "SenderForBundle (emit c e) = SenderForBundle c"
  "SendFails (emit c e) = SendFails c"
  "NewAdministrativeRecordFromCbor (emit c e) = NewAdministrativeRecordFromCbor c"
  "now (emit c e) = now c"
  by (simp_all add: emit_def)

lemma Push_fields [simp]:
  "trace (Push c bp) = trace c @ [EvPush bp]"
  "store (Push c bp) = AList.update (ID bp) bp (store c)"
  "NodeId (Push c bp) = NodeId c"
  "Agents (Push c bp) = Agents c"
  "convergenceSenders (Push c bp) = convergenceSenders c"
  "inspectAllBundles (Push c bp) = inspectAllBundles c"
  "IsLifetimeExceeded (Push c bp) = IsLifetimeExceeded c"
  "SenderForBundle (Push c bp) = SenderForBundle c"
  "SendFails (Push c bp) = SendFails c"
  "NewAdministrativeRecordFromCbor (Push c bp) = NewAdministrativeRecordFromCbor c"
  "now (Push c bp) = now c"
  by (simp_all add: Push_def)

lemma SendStatusReport_fields [simp]:
  "trace (SendStatusReport c bp s r) = trace c @ report_events c bp s r"
  "NodeId (SendStatusReport c bp s r) = NodeId c"
  "Agents (SendStatusReport c bp s r) = Agents c"
  "now (SendStatusReport c bp s r) = now c"
  "IsLifetimeExceeded (SendStatusReport c bp s r) = IsLifetimeExceeded c"
  "SenderForBundle (SendStatusReport c bp s r) = SenderForBundle c"
  "ReportTransmission (SendStatusReport c bp s r) = ReportTransmission c"
  "AdministrativeRecordToCbor (SendStatusReport c bp s r) = AdministrativeRecordToCbor c"
  by (simp_all add: SendStatusReport_def report_events_def Let_def split: prod.splits)

lemma report_events_head:
  "report_events c bp s r
     = EvStatusReport (ID bp) s r
       # snd (ReportTransmission c (report_pack c bp s r)
                (store c, idKeeper c, convergenceSenders c))"
  by (simp add: report_events_def)

lemma HasEndpoint_cong:
  "NodeId c' = NodeId c \<Longrightarrow> Agents c' = Agents c \<Longrightarrow> HasEndpoint c' e = HasEndpoint c e"
  by (simp add: HasEndpoint_def)

lemma bundleDeletion_result:
  "fst (bundleDeletion c bp r) = PurgeConstraints bp"
  "snd (bundleDeletion c bp r)
     = emit (Push (if StatusRequestDeletion \<in> BundleControlFlags (PrimaryBlock (Bundle bp))
                   then SendStatusReport c bp DeletedBundle r else c)
                  (PurgeConstraints bp))
            (EvMarkedForDeletion (ID bp))"
  "map_of (store (snd (bundleDeletion c bp r))) (ID bp) = Some (PurgeConstraints bp)"
  "trace (snd (bundleDeletion c bp r)) = trace c @ deletion_events c bp r"
  by (simp_all add: bundleDeletion_def Let_def update_conv deletion_events_def)

lemma idKeeper_update_result:
  "idKeeper_update_pack c bp0 = (bp, c1) \<Longrightarrow>
     SourceNode (PrimaryBlock (Bundle bp)) = SourceNode (PrimaryBlock (Bundle bp0))
   \<and> BundleControlFlags (PrimaryBlock (Bundle bp)) = BundleControlFlags (PrimaryBlock (Bundle bp0))
   \<and> NodeId c1 = NodeId c \<and> Agents c1 = Agents c
   \<and> trace c1 = trace c @ [EvIdKeeperUpdate (ID bp)]"
  by (auto simp: idKeeper_update_pack_def Let_def split: prod.splits)

lemma new_events_append:
  "trace c' = trace c @ xs \<Longrightarrow> new_events c c' = xs"
  by (simp add: new_events_def)

text \<open>
  C8. A bundle handed to \<open>transmit\<close> whose source is neither \<^verbatim>\<open>dtn:none\<close> nor an
  endpoint of this node is deleted with reason \<open>NoInformation\<close>. The call is the deletion
  of the pack as the id keeper and the first push left it, and nothing else: the stage adds
  to the trace the id-keeper update and the first push, then, exactly when the primary
  block asks for the deletion status, the emission of a \<open>DeletedBundle\<close> report with reason
  \<open>NoInformation\<close> (the call and the run of the report bundle), then the push of the purged
  pack and the mark. The constraints of the pack are empty, the store holds the purged
  pack, and the bundle is not dispatched: none of the stage's own events is a dispatching,
  and without a report the trace holds none at all.
\<close>

theorem transmit_foreign_source_deleted:
  assumes "SourceNode (PrimaryBlock (Bundle bp0)) \<noteq> DtnNone"
      and "\<not> HasEndpoint c (SourceNode (PrimaryBlock (Bundle bp0)))"
  shows "\<exists>bp c1 c'.
           idKeeper_update_pack c bp0 = (bp, c1)
         \<and> transmit c bp0
             = Inr (bundleDeletion (Push c1 (AddConstraint bp DispatchPending))
                      (AddConstraint bp DispatchPending) NoInformation)
         \<and> transmit c bp0 = Inr (PurgeConstraints bp, c')
         \<and> Constraints (PurgeConstraints bp) = {}
         \<and> map_of (store c') (ID bp) = Some (PurgeConstraints bp)
         \<and> new_events c c'
             = [EvIdKeeperUpdate (ID bp), EvPush (AddConstraint bp DispatchPending)]
               @ (if StatusRequestDeletion \<in> BundleControlFlags (PrimaryBlock (Bundle bp0))
                  then report_events (Push c1 (AddConstraint bp DispatchPending))
                         (AddConstraint bp DispatchPending) DeletedBundle NoInformation
                  else [])
               @ [EvPush (PurgeConstraints bp), EvMarkedForDeletion (ID bp)]
         \<and> (StatusRequestDeletion \<in> BundleControlFlags (PrimaryBlock (Bundle bp0))
              \<longrightarrow> hd (report_events (Push c1 (AddConstraint bp DispatchPending))
                        (AddConstraint bp DispatchPending) DeletedBundle NoInformation)
                  = EvStatusReport (ID bp) DeletedBundle NoInformation)
         \<and> (StatusRequestDeletion \<notin> BundleControlFlags (PrimaryBlock (Bundle bp0))
              \<longrightarrow> (\<forall>i. EvDispatching i \<notin> set (new_events c c'))
                \<and> (\<forall>i s r. EvStatusReport i s r \<notin> set (new_events c c')))"
proof -
  obtain bp c1 where u: "idKeeper_update_pack c bp0 = (bp, c1)"
    by (cases "idKeeper_update_pack c bp0")
  note k = idKeeper_update_result [OF u]
  define bp1 where "bp1 = AddConstraint bp DispatchPending"
  define c2 where "c2 = Push c1 bp1"
  define c' where "c' = snd (bundleDeletion c2 bp1 NoInformation)"
  have h: "\<not> HasEndpoint c2 (SourceNode (PrimaryBlock (Bundle bp1)))"
    using assms(2) k by (simp add: HasEndpoint_def c2_def bp1_def)
  have s: "SourceNode (PrimaryBlock (Bundle bp1)) \<noteq> DtnNone"
    using assms(1) k by (simp add: bp1_def)
  have t: "transmit c bp0 = Inr (bundleDeletion c2 bp1 NoInformation)"
    using h s u by (simp add: transmit_def Let_def c2_def bp1_def)
  have p: "bundleDeletion c2 bp1 NoInformation = (PurgeConstraints bp, c')"
    by (simp add: prod_eq_iff c'_def bundleDeletion_result(1) bp1_def)
  have "trace c' = trace c @ ([EvIdKeeperUpdate (ID bp), EvPush bp1]
                              @ deletion_events c2 bp1 NoInformation)"
    using k by (simp add: c'_def bundleDeletion_result(4) c2_def)
  then have n: "new_events c c'
      = [EvIdKeeperUpdate (ID bp), EvPush bp1] @ deletion_events c2 bp1 NoInformation"
    by (rule new_events_append)
  have tr: "new_events c c'
             = [EvIdKeeperUpdate (ID bp), EvPush bp1]
               @ (if StatusRequestDeletion \<in> BundleControlFlags (PrimaryBlock (Bundle bp0))
                  then report_events c2 bp1 DeletedBundle NoInformation else [])
               @ [EvPush (PurgeConstraints bp), EvMarkedForDeletion (ID bp)]"
    using k by (simp add: n deletion_events_def bp1_def)
  have st: "map_of (store c') (ID bp) = Some (PurgeConstraints bp)"
    using bundleDeletion_result(3) [of c2 bp1 NoInformation] by (simp add: c'_def bp1_def)
  have hd: "hd (report_events c2 bp1 DeletedBundle NoInformation)
              = EvStatusReport (ID bp) DeletedBundle NoInformation"
    by (simp add: report_events_head bp1_def)
  have nd: "(\<forall>i. EvDispatching i \<notin> set (new_events c c'))
            \<and> (\<forall>i s r. EvStatusReport i s r \<notin> set (new_events c c'))"
    if "StatusRequestDeletion \<notin> BundleControlFlags (PrimaryBlock (Bundle bp0))"
    using that by (simp add: tr)
  show ?thesis
    using u t p tr st hd nd unfolding c2_def bp1_def by auto
qed

theorem transmit_foreign_source_deleted_witness:
  "SourceNode (PrimaryBlock (Bundle (pack (primary_to ep_peer ep_elsewhere {StatusRequestDeletion}) [payload_block]))) \<noteq> DtnNone
   \<and> \<not> HasEndpoint (reporting (this_node False))
         (SourceNode (PrimaryBlock (Bundle (pack (primary_to ep_peer ep_elsewhere {StatusRequestDeletion}) [payload_block]))))
   \<and> (\<exists>bp c'. transmit (reporting (this_node False)) (pack (primary_to ep_peer ep_elsewhere {StatusRequestDeletion}) [payload_block])
                  = Inr (bp, c')
             \<and> Constraints bp = {}
             \<and> map_of (store c') (ID bp) = Some bp
             \<and> EvStatusReport (ID bp) DeletedBundle NoInformation \<in> set (new_events (reporting (this_node False)) c'))"
proof -
  let ?bp = "pack (primary_to ep_peer ep_elsewhere {StatusRequestDeletion}) [payload_block]"
  have h1: "SourceNode (PrimaryBlock (Bundle ?bp)) \<noteq> DtnNone"
    by (simp add: pack_def primary_to_def ep_elsewhere_def DtnNone_def)
  have h2: "\<not> HasEndpoint (reporting (this_node False)) (SourceNode (PrimaryBlock (Bundle ?bp)))"
    by (simp add: pack_def primary_to_def ep_elsewhere_def HasEndpoint_def reporting_def this_node_def ep_self_def agent1_def)
  have f: "StatusRequestDeletion \<in> BundleControlFlags (PrimaryBlock (Bundle ?bp))"
    by (simp add: pack_def primary_to_def)
  obtain bp c1 c' where r: "transmit (reporting (this_node False)) ?bp = Inr (PurgeConstraints bp, c')"
    and st: "map_of (store c') (ID bp) = Some (PurgeConstraints bp)"
    and n: "new_events (reporting (this_node False)) c'
             = [EvIdKeeperUpdate (ID bp), EvPush (AddConstraint bp DispatchPending)]
               @ (if StatusRequestDeletion \<in> BundleControlFlags (PrimaryBlock (Bundle ?bp))
                  then report_events (Push c1 (AddConstraint bp DispatchPending))
                         (AddConstraint bp DispatchPending) DeletedBundle NoInformation
                  else [])
               @ [EvPush (PurgeConstraints bp), EvMarkedForDeletion (ID bp)]"
    using transmit_foreign_source_deleted [OF h1 h2] by blast
  have "EvStatusReport (ID bp) DeletedBundle NoInformation \<in> set (new_events (reporting (this_node False)) c')"
    unfolding n using f by (simp add: report_events_head)
  then have "\<exists>bp c'. transmit (reporting (this_node False)) ?bp = Inr (bp, c')
             \<and> Constraints bp = {}
             \<and> map_of (store c') (ID bp) = Some bp
             \<and> EvStatusReport (ID bp) DeletedBundle NoInformation
                 \<in> set (new_events (reporting (this_node False)) c')"
    using r st by (intro exI [of _ "PurgeConstraints bp"] exI [of _ c']) simp
  then show ?thesis
    using h1 h2 by blast
qed

section \<open>Duplicate suppression at receive\<close>

text \<open>
  C3. A call of \<open>receive\<close> with a bundle whose identity the store already knows returns at
  once: the pack is handed back as it came (no constraint is added) and the core is the
  same, so nothing was pushed, nothing was marked for deletion, and the store is the one
  the earlier call left.
\<close>

theorem receive_duplicate_unchanged:
  assumes "KnowsBundle (store c) bp"
  shows "receive c bp = Inr (bp, c)"
  using assms by (simp add: receive_def)

lemmas scenario_defs =
  this_node_def pack_def primary_to_def payload_block_def hop_block_def age_block_def unknown_block_def
  sender1_def agent1_def ep_self_def ep_peer_def ep_elsewhere_def

lemmas stage_defs =
  receive_def KnowsBundle_def dispatching_def HasEndpoint_def forward_def forward_hop_count_def
  UpdateBundleAge_def forward_send_def senderForDestination_def bundleContraindicated_def
  bundleDeletion_def RemoveConvergenceSender_def RegisterConvergenceSender_def
  SendStatusReport_def Push_def emit_def ID_def AddConstraint_def RemoveConstraint_def
  PurgeConstraints_def Let_def

theorem receive_duplicate_unchanged_witness:
  "case receive (this_node False) (pack (primary_to ep_peer ep_elsewhere {}) [payload_block]) of
     Inl p \<Rightarrow> False
   | Inr (bp', c') \<Rightarrow>
       KnowsBundle (store c') (pack (primary_to ep_peer ep_elsewhere {}) [payload_block])
       \<and> receive c' (pack (primary_to ep_peer ep_elsewhere {}) [payload_block])
           = Inr (pack (primary_to ep_peer ep_elsewhere {}) [payload_block], c')"
proof -
  let ?bp = "pack (primary_to ep_peer ep_elsewhere {}) [payload_block]"
  obtain bp' c' where r: "receive (this_node False) ?bp = Inr (bp', c')"
    by (simp add: scenario_defs stage_defs)
  have k: "KnowsBundle (store c') ?bp"
    using r by (auto simp: scenario_defs stage_defs)
  show ?thesis
    using r k receive_duplicate_unchanged [OF k] by simp
qed

section \<open>Inspection of status reports\<close>

lemma inspect_item_not_delivered:
  "sip \<noteq> DeliveredBundle \<Longrightarrow> inspect_item (c, bp) sip = (c, bp)"
  by (cases sip) simp_all

lemma inspect_loop_not_delivered:
  "DeliveredBundle \<notin> set sips \<Longrightarrow> foldl inspect_item (c, bp) sips = (c, bp)"
  by (induction sips) (auto simp: inspect_item_not_delivered)

lemma inspect_loop_store:
  "store (fst (foldl inspect_item (c, bp) sips)) =
     (if DeliveredBundle \<in> set sips
      then AList.update (ID bp) (PurgeConstraints bp) (store c) else store c)"
proof (induction sips arbitrary: c bp)
  case Nil
  show ?case by simp
next
  case (Cons sip sips)
  show ?case
  proof (cases "sip = DeliveredBundle")
    case True
    then show ?thesis
      using Cons.IH [of "Push c (PurgeConstraints bp)" "PurgeConstraints bp"]
      by (simp add: Let_def)
  next
    case False
    then show ?thesis
      using Cons.IH [of c bp] by (simp add: inspect_item_not_delivered)
  qed
qed

lemma inspect_loop_trace:
  "trace (fst (foldl inspect_item (c, bp) sips)) =
     trace c @ replicate (count_list sips DeliveredBundle) (EvPush (PurgeConstraints bp))"
proof (induction sips arbitrary: c bp)
  case Nil
  show ?case by simp
next
  case (Cons sip sips)
  show ?case
  proof (cases "sip = DeliveredBundle")
    case True
    then show ?thesis
      using Cons.IH [of "Push c (PurgeConstraints bp)" "PurgeConstraints bp"]
      by (simp add: Let_def replicate_app_Cons_same)
  next
    case False
    then show ?thesis
      using Cons.IH [of c bp] by (simp add: inspect_item_not_delivered)
  qed
qed

text \<open>
  C7. When a status report is inspected and the store query for its subject does not give
  exactly one pack, the core is unchanged. With exactly one pack, every item other than
  \<open>DeliveredBundle\<close> leaves core and pack as they are, and a \<open>DeliveredBundle\<close> item purges
  the subject's constraints and pushes it: without such an item the core is unchanged, with
  one the store holds the subject with an empty set of constraints and only pushes of it
  were added to the trace.
\<close>

theorem inspectStatusReport_effect:
  "(length (QueryFromStatusReport (store c) (Content ar)) \<noteq> 1 \<longrightarrow> inspectStatusReport c ar = c)
   \<and> (\<forall>bp sip. sip \<noteq> DeliveredBundle \<longrightarrow> inspect_item (c, bp) sip = (c, bp))
   \<and> (\<forall>bp. inspect_item (c, bp) DeliveredBundle
              = (Push c (PurgeConstraints bp), PurgeConstraints bp)
            \<and> Constraints (snd (inspect_item (c, bp) DeliveredBundle)) = {}
            \<and> map_option Constraints
                 (map_of (store (fst (inspect_item (c, bp) DeliveredBundle))) (ID bp)) = Some {})
   \<and> (\<forall>bp. QueryFromStatusReport (store c) (Content ar) = [bp] \<longrightarrow>
         (DeliveredBundle \<notin> set (StatusInformations (Content ar)) \<longrightarrow> inspectStatusReport c ar = c)
       \<and> (DeliveredBundle \<in> set (StatusInformations (Content ar)) \<longrightarrow>
            store (inspectStatusReport c ar)
              = AList.update (ID bp) (PurgeConstraints bp) (store c)
          \<and> map_of (store (inspectStatusReport c ar)) (ID bp) = Some (PurgeConstraints bp)
          \<and> Constraints (PurgeConstraints bp) = {}
          \<and> map_option Constraints (map_of (store (inspectStatusReport c ar)) (ID bp)) = Some {}
          \<and> trace (inspectStatusReport c ar)
              = trace c @ replicate (count_list (StatusInformations (Content ar)) DeliveredBundle)
                            (EvPush (PurgeConstraints bp))))"
proof -
  have a: "length (QueryFromStatusReport (store c) (Content ar)) \<noteq> 1 \<longrightarrow> inspectStatusReport c ar = c"
    by (simp add: inspectStatusReport_def Let_def)
  have b: "\<forall>bp sip. sip \<noteq> DeliveredBundle \<longrightarrow> inspect_item (c, bp) sip = (c, bp)"
    by (simp add: inspect_item_not_delivered)
  have d: "\<forall>bp. inspect_item (c, bp) DeliveredBundle
              = (Push c (PurgeConstraints bp), PurgeConstraints bp)
            \<and> Constraints (snd (inspect_item (c, bp) DeliveredBundle)) = {}
            \<and> map_option Constraints
                 (map_of (store (fst (inspect_item (c, bp) DeliveredBundle))) (ID bp)) = Some {}"
    by (simp add: Let_def update_conv)
  have e: "inspectStatusReport c ar = c"
    if "QueryFromStatusReport (store c) (Content ar) = [bp]"
       "DeliveredBundle \<notin> set (StatusInformations (Content ar))" for bp
    using that by (simp add: inspectStatusReport_def Let_def inspect_loop_not_delivered)
  have f: "store (inspectStatusReport c ar) = AList.update (ID bp) (PurgeConstraints bp) (store c)
         \<and> map_of (store (inspectStatusReport c ar)) (ID bp) = Some (PurgeConstraints bp)
         \<and> Constraints (PurgeConstraints bp) = {}
         \<and> map_option Constraints (map_of (store (inspectStatusReport c ar)) (ID bp)) = Some {}
         \<and> trace (inspectStatusReport c ar)
              = trace c @ replicate (count_list (StatusInformations (Content ar)) DeliveredBundle)
                            (EvPush (PurgeConstraints bp))"
    if q: "QueryFromStatusReport (store c) (Content ar) = [bp]"
       and m: "DeliveredBundle \<in> set (StatusInformations (Content ar))" for bp
  proof -
    have ne: "StatusInformations (Content ar) \<noteq> []" using m by auto
    have i: "inspectStatusReport c ar = fst (foldl inspect_item (c, bp) (StatusInformations (Content ar)))"
      using q ne by (simp add: inspectStatusReport_def Let_def)
    show ?thesis
      using m by (simp add: i inspect_loop_store inspect_loop_trace update_conv)
  qed
  show ?thesis using a b d e f by blast
qed

theorem inspectStatusReport_effect_witness:
  "QueryFromStatusReport (store (holding (this_node False) waiting_pack)) (Content delivered_report)
     = [waiting_pack]
   \<and> DeliveredBundle \<in> set (StatusInformations (Content delivered_report))
   \<and> ReceivedBundle \<noteq> DeliveredBundle
   \<and> inspect_item (holding (this_node False) waiting_pack, waiting_pack) ReceivedBundle
       = (holding (this_node False) waiting_pack, waiting_pack)
   \<and> map_option Constraints
         (map_of (store (holding (this_node False) waiting_pack)) (ID waiting_pack))
       = Some {ForwardPending}
   \<and> map_of (store (inspectStatusReport (holding (this_node False) waiting_pack) delivered_report))
        (ID waiting_pack) = Some (PurgeConstraints waiting_pack)
   \<and> map_option Constraints
         (map_of (store (inspectStatusReport (holding (this_node False) waiting_pack)
                           delivered_report)) (ID waiting_pack))
       = Some {}"
proof -
  have q: "QueryFromStatusReport (store (holding (this_node False) waiting_pack)) (Content delivered_report)
             = [waiting_pack]"
    by (simp add: QueryFromStatusReport_def holding_def waiting_pack_def delivered_report_def
        scenario_defs)
  have m: "DeliveredBundle \<in> set (StatusInformations (Content delivered_report))"
    by (simp add: delivered_report_def)
  have w: "map_option Constraints
             (map_of (store (holding (this_node False) waiting_pack)) (ID waiting_pack))
           = Some {ForwardPending}"
    by (simp add: holding_def waiting_pack_def)
  show ?thesis
    using q m w
      inspectStatusReport_effect [of "holding (this_node False) waiting_pack" delivered_report]
    by (simp add: update_conv)
qed

section \<open>Local delivery of administrative bundles\<close>

text \<open>
  C9. At local delivery, an administrative bundle whose payload block is missing, or whose
  payload the parser of administrative records refuses, is deleted with reason
  \<open>NoInformation\<close>: the stage is the deletion, applied to the core as the stage found it,
  and nothing else. So no agent is handed the bundle, the routing algorithm is not
  notified and no delivery status report is emitted for it: the stage adds to the trace
  the emission of the \<open>DeletedBundle\<close> report, if the bundle asks for one, the push of the
  purged pack and the mark; without a report the trace holds no delivery, no notification
  and no status report at all.
\<close>

theorem localDelivery_malformed_record_deleted:
  assumes "IsAdministrativeRecord (Bundle bp)"
      and "ExtensionBlock (CanonicalBlocks (Bundle bp)) PayloadBlock = None
           \<or> (\<exists>i raw. ExtensionBlock (CanonicalBlocks (Bundle bp)) PayloadBlock = Some i
                    \<and> Data (CanonicalBlocks (Bundle bp) ! i) = Bytes raw
                    \<and> NewAdministrativeRecordFromCbor c raw = None)"
  shows "localDelivery c bp = Inr (bundleDeletion c bp NoInformation)
       \<and> fst (bundleDeletion c bp NoInformation) = PurgeConstraints bp
       \<and> snd (bundleDeletion c bp NoInformation)
           = emit (Push (if StatusRequestDeletion \<in> BundleControlFlags (PrimaryBlock (Bundle bp))
                         then SendStatusReport c bp DeletedBundle NoInformation else c)
                        (PurgeConstraints bp))
                  (EvMarkedForDeletion (ID bp))
       \<and> new_events c (snd (bundleDeletion c bp NoInformation))
           = (if StatusRequestDeletion \<in> BundleControlFlags (PrimaryBlock (Bundle bp))
              then report_events c bp DeletedBundle NoInformation else [])
             @ [EvPush (PurgeConstraints bp), EvMarkedForDeletion (ID bp)]
       \<and> (StatusRequestDeletion \<in> BundleControlFlags (PrimaryBlock (Bundle bp)) \<longrightarrow>
            hd (report_events c bp DeletedBundle NoInformation)
              = EvStatusReport (ID bp) DeletedBundle NoInformation)
       \<and> (StatusRequestDeletion \<notin> BundleControlFlags (PrimaryBlock (Bundle bp)) \<longrightarrow>
            (\<forall>a b. EvDeliver a b \<notin> set (new_events c (snd (bundleDeletion c bp NoInformation))))
          \<and> (\<forall>i. EvNotifyIncoming i
                 \<notin> set (new_events c (snd (bundleDeletion c bp NoInformation))))
          \<and> (\<forall>i s r. EvStatusReport i s r
                 \<notin> set (new_events c (snd (bundleDeletion c bp NoInformation)))))"
proof -
  have k: "checkAdministrativeRecord c bp = Inr (False, c)"
    using assms by (auto simp: checkAdministrativeRecord_def Let_def)
  have l: "localDelivery c bp = Inr (bundleDeletion c bp NoInformation)"
    using assms(1) k by (simp add: localDelivery_def)
  have n: "new_events c (snd (bundleDeletion c bp NoInformation))
           = (if StatusRequestDeletion \<in> BundleControlFlags (PrimaryBlock (Bundle bp))
              then report_events c bp DeletedBundle NoInformation else [])
             @ [EvPush (PurgeConstraints bp), EvMarkedForDeletion (ID bp)]"
    by (rule new_events_append) (simp add: bundleDeletion_result(4) deletion_events_def)
  have h: "hd (report_events c bp DeletedBundle NoInformation)
              = EvStatusReport (ID bp) DeletedBundle NoInformation"
    by (simp add: report_events_head)
  show ?thesis
    using l h by (simp add: n bundleDeletion_result(1) bundleDeletion_result(2) [symmetric])
qed

theorem localDelivery_malformed_record_deleted_witness:
  "IsAdministrativeRecord (Bundle (pack (primary_to ep_self ep_elsewhere {AdministrativeRecordPayload}) []))
   \<and> ExtensionBlock
        (CanonicalBlocks (Bundle (pack (primary_to ep_self ep_elsewhere {AdministrativeRecordPayload}) [])))
        PayloadBlock = None
   \<and> localDelivery (this_node False) (pack (primary_to ep_self ep_elsewhere {AdministrativeRecordPayload}) [])
       = Inr (bundleDeletion (this_node False)
                (pack (primary_to ep_self ep_elsewhere {AdministrativeRecordPayload}) []) NoInformation)"
proof -
  let ?bp = "pack (primary_to ep_self ep_elsewhere {AdministrativeRecordPayload}) []"
  have a: "IsAdministrativeRecord (Bundle ?bp)"
    by (simp add: IsAdministrativeRecord_def pack_def primary_to_def)
  have b: "ExtensionBlock (CanonicalBlocks (Bundle ?bp)) PayloadBlock = None"
    by (simp add: pack_def)
  show ?thesis
    using a b localDelivery_malformed_record_deleted [of ?bp "this_node False"] by simp
qed

section \<open>The forward stage\<close>

lemma ExtensionBlock_Some:
  "ExtensionBlock cbs t = Some i \<Longrightarrow> i < length cbs \<and> BlockType (cbs ! i) = t"
proof (induction cbs arbitrary: i)
  case Nil
  then show ?case by simp
next
  case (Cons cb cbs)
  then show ?case by (auto split: if_splits)
qed

lemma ExtensionBlock_set_Data:
  "ExtensionBlock (cbs[i := (cbs ! i)\<lparr>Data := d\<rparr>]) t = ExtensionBlock cbs t"
proof (induction cbs arbitrary: i)
  case Nil
  show ?case by simp
next
  case (Cons cb cbs)
  show ?case by (cases i) (simp_all add: Cons.IH)
qed

lemma Data_other_block:
  assumes "ExtensionBlock cbs t = Some i" "ExtensionBlock cbs u = Some j" "t \<noteq> u"
  shows "Data ((cbs[i := (cbs ! i)\<lparr>Data := d\<rparr>]) ! j) = Data (cbs ! j)"
proof -
  have "i \<noteq> j" using assms ExtensionBlock_Some by blast
  then show ?thesis by simp
qed

lemma Data_same_block:
  assumes "ExtensionBlock cbs t = Some i"
  shows "Data ((cbs[i := (cbs ! i)\<lparr>Data := d\<rparr>]) ! i) = d"
  using ExtensionBlock_Some [OF assms] by simp

lemma forward_hop_count_absent:
  "ExtensionBlock (CanonicalBlocks (Bundle bp)) HopCountBlock = None \<Longrightarrow>
     forward_hop_count c bp = Inr (False, bp, c)"
  by (simp add: forward_hop_count_def)

lemma forward_hop_count_present:
  assumes "hop_count bp = Some hc"
  shows "\<exists>bp2. forward_hop_count c bp
                  = Inr (Limit hc < Count hc + 1, bp2, emit c (EvHopCount (Increment hc)))
              \<and> hop_count bp2 = Some (Increment hc)
              \<and> PrimaryBlock (Bundle bp2) = PrimaryBlock (Bundle bp)
              \<and> Constraints bp2 = Constraints bp \<and> Timestamp bp2 = Timestamp bp
              \<and> payload_is_bytes bp2 = payload_is_bytes bp"
proof -
  obtain i where i: "ExtensionBlock (CanonicalBlocks (Bundle bp)) HopCountBlock = Some i"
    and d: "Data (CanonicalBlocks (Bundle bp) ! i) = Hops hc"
    using assms by (auto simp: hop_count_def Let_def split: option.splits BlockData.splits)
  have p: "Data ((CanonicalBlocks (Bundle bp))[i := (CanonicalBlocks (Bundle bp) ! i)\<lparr>Data := x\<rparr>] ! j)
            = Data (CanonicalBlocks (Bundle bp) ! j)"
    if "ExtensionBlock (CanonicalBlocks (Bundle bp)) PayloadBlock = Some j" for j x
    using Data_other_block [OF i that] by simp
  show ?thesis
    using i d
    by (auto simp: forward_hop_count_def Let_def hop_count_def payload_is_bytes_def
        ExtensionBlock_set_Data Data_same_block IsExceeded_def Increment_def p
        split: option.splits)
qed

lemma forward_hop_count_core:
  "forward_hop_count c bp = Inr (ex, bp2, c2) \<Longrightarrow> c2 = c \<or> (\<exists>hc. c2 = emit c (EvHopCount hc))"
  by (auto simp: forward_hop_count_def Let_def split: option.splits BlockData.splits)

lemma UpdateBundleAge_core:
  "UpdateBundleAge c' bp = UpdateBundleAge c bp" if "now c' = now c"
  using that by (auto simp: UpdateBundleAge_def Let_def split: option.splits BlockData.splits)

lemma UpdateBundleAge_keeps:
  assumes "UpdateBundleAge c bp = Some (age, bp3)"
  shows "hop_count bp3 = hop_count bp \<and> payload_is_bytes bp3 = payload_is_bytes bp
       \<and> PrimaryBlock (Bundle bp3) = PrimaryBlock (Bundle bp)
       \<and> Constraints bp3 = Constraints bp"
proof -
  obtain i a where i: "ExtensionBlock (CanonicalBlocks (Bundle bp)) BundleAgeBlock = Some i"
    and d: "Data (CanonicalBlocks (Bundle bp) ! i) = Age a"
    and b: "bp3 = bp\<lparr>Bundle := (Bundle bp)\<lparr>CanonicalBlocks := (CanonicalBlocks (Bundle bp))
               [i := (CanonicalBlocks (Bundle bp) ! i)\<lparr>Data := Age age\<rparr>]\<rparr>\<rparr>"
    using assms by (auto simp: UpdateBundleAge_def Let_def split: option.splits BlockData.splits)
  have p: "Data ((CanonicalBlocks (Bundle bp))[i := (CanonicalBlocks (Bundle bp) ! i)\<lparr>Data := x\<rparr>] ! j)
            = Data (CanonicalBlocks (Bundle bp) ! j)"
    if "ExtensionBlock (CanonicalBlocks (Bundle bp)) t = Some j" "t \<noteq> BundleAgeBlock" for j x t
    using Data_other_block [OF i that(1)] that(2) by simp
  show ?thesis
    by (auto simp: b hop_count_def payload_is_bytes_def Let_def ExtensionBlock_set_Data p
        split: option.splits)
qed

lemma checkAdministrativeRecord_no_panic:
  "payload_is_bytes bp \<Longrightarrow> checkAdministrativeRecord c (AddConstraint bp k) \<noteq> Inl p"
  by (auto simp: checkAdministrativeRecord_def payload_is_bytes_def Let_def
      split: option.splits BlockData.splits)

lemma bundleContraindicated_result:
  "fst (bundleContraindicated c bp) = AddConstraint bp Contraindicated"
  "snd (bundleContraindicated c bp) = Push c (AddConstraint bp Contraindicated)"
  by (simp_all add: bundleContraindicated_def Let_def)

lemma forward_send_bundle:
  "forward_send c bp = Inr (bp', c') \<Longrightarrow> Bundle bp' = Bundle bp"
  by (auto simp: forward_send_def Let_def bundleContraindicated_def
      split: prod.splits if_splits sum.splits)

lemma forward_send_returns:
  assumes "payload_is_bytes bp"
  shows "\<exists>bp' c'. forward_send c bp = Inr (bp', c')"
  using checkAdministrativeRecord_no_panic [OF assms]
  by (auto simp: forward_send_def Let_def bundleContraindicated_def
      split: prod.splits if_splits sum.splits)

lemma forward_hop_count_trace:
  assumes "forward_hop_count c bp = Inr (ex, bp2, c2)"
  shows "trace c2 = trace c @ (case hop_count bp of None \<Rightarrow> [] | Some hc \<Rightarrow> [EvHopCount (Increment hc)])"
    and "now c2 = now c" 
    and "IsLifetimeExceeded c2 = IsLifetimeExceeded c"
    and "case hop_count bp of
             None \<Rightarrow> \<not> ex \<and> bp2 = bp
           | Some hc \<Rightarrow> ex = (Limit hc < Count hc + 1) \<and> hop_count bp2 = Some (Increment hc)"
proof -
  have "trace c2 = trace c @ (case hop_count bp of None \<Rightarrow> [] | Some hc \<Rightarrow> [EvHopCount (Increment hc)])
       \<and> now c2 = now c \<and> IsLifetimeExceeded c2 = IsLifetimeExceeded c
       \<and> (case hop_count bp of
             None \<Rightarrow> \<not> ex \<and> bp2 = bp
           | Some hc \<Rightarrow> ex = (Limit hc < Count hc + 1) \<and> hop_count bp2 = Some (Increment hc))"
  proof (cases "hop_count bp")
    case None
    then have "ExtensionBlock (CanonicalBlocks (Bundle bp)) HopCountBlock = None"
      using assms
      by (auto simp: forward_hop_count_def hop_count_def Let_def split: option.splits BlockData.splits)
    then show ?thesis
      using assms None by (simp add: forward_hop_count_absent)
  next
    case (Some hc)
    then show ?thesis
      using assms forward_hop_count_present [OF Some, of c] by auto
  qed
  then show "trace c2 = trace c @ (case hop_count bp of None \<Rightarrow> [] | Some hc \<Rightarrow> [EvHopCount (Increment hc)])"
    and "now c2 = now c" 
    and "IsLifetimeExceeded c2 = IsLifetimeExceeded c"
    and "case hop_count bp of
             None \<Rightarrow> \<not> ex \<and> bp2 = bp
           | Some hc \<Rightarrow> ex = (Limit hc < Count hc + 1) \<and> hop_count bp2 = Some (Increment hc)"
    by blast+
qed

lemma forward_unfold:
  assumes h: "forward_hop_count (Push c bp1) bp1 = Inr (exceeded, bp2, c2)"
      and b: "bp1 = RemoveConstraint (AddConstraint bp ForwardPending) DispatchPending"
  shows "forward c bp =
             (if exceeded then Inr (bundleDeletion c2 bp2 HopLimitExceeded)
              else if IsLifetimeExceeded c (PrimaryBlock (Bundle bp2))
              then Inr (bundleDeletion (emit c2 (EvLifetimeCheck bp2)) bp2 LifetimeExpired)
              else (case UpdateBundleAge c bp2 of
                      Some (age, bp3) \<Rightarrow>
                        if age \<ge> Lifetime (PrimaryBlock (Bundle bp3))
                        then Inr (bundleDeletion
                                   (emit (emit c2 (EvLifetimeCheck bp2)) (EvUpdateBundleAge age))
                                   bp3 LifetimeExpired)
                        else forward_send (emit (emit c2 (EvLifetimeCheck bp2)) (EvUpdateBundleAge age)) bp3
                    | None \<Rightarrow> forward_send (emit c2 (EvLifetimeCheck bp2)) bp2))"
proof -
  note t = forward_hop_count_trace [OF h]
  have lt: "IsLifetimeExceeded (emit c2 (EvLifetimeCheck bp2)) = IsLifetimeExceeded c"
    by (simp add: t(3))
  have "now (emit c2 (EvLifetimeCheck bp2)) = now c"
    by (simp add: t(2))
  then have ua: "UpdateBundleAge (emit c2 (EvLifetimeCheck bp2)) bp2 = UpdateBundleAge c bp2"
    by (rule UpdateBundleAge_core)
  have h': "forward_hop_count (Push c (RemoveConstraint (AddConstraint bp ForwardPending) DispatchPending))
             (RemoveConstraint (AddConstraint bp ForwardPending) DispatchPending) = Inr (exceeded, bp2, c2)"
    using h unfolding b .
  show ?thesis
    unfolding forward_def Let_def h' 
    by (simp only: lt ua sum.case prod.case)
qed

lemma bundleDeletion_eq:
  "(bundleDeletion c bp r = (bp', c')) =
     (bp' = PurgeConstraints bp \<and> c' = snd (bundleDeletion c bp r))"
  by (auto simp: prod_eq_iff bundleDeletion_result)

lemma bundleDeletion_trace:
  "trace (snd (bundleDeletion c bp r)) = trace c @ deletion_events c bp r"
  by (rule bundleDeletion_result(4))

lemma deletion_events_no_sender:
  "StatusRequestDeletion \<notin> BundleControlFlags (PrimaryBlock (Bundle bp)) \<Longrightarrow>
     e \<in> set (deletion_events c bp r) \<Longrightarrow> \<not> sender_event e"
  by (auto simp: deletion_events_def split: if_splits)

lemma deleted_after:
  assumes "trace c0 = trace c @ xs" "\<forall>e \<in> set xs. \<not> sender_event e"
  shows "new_events c (snd (bundleDeletion c0 bp r)) = xs @ deletion_events c0 bp r
       \<and> (StatusRequestDeletion \<notin> BundleControlFlags (PrimaryBlock (Bundle bp)) \<longrightarrow>
            (\<forall>e \<in> set (new_events c (snd (bundleDeletion c0 bp r))). \<not> sender_event e))"
proof -
  have n: "new_events c (snd (bundleDeletion c0 bp r)) = xs @ deletion_events c0 bp r"
    by (rule new_events_append) (simp add: bundleDeletion_trace assms(1))
  show ?thesis
    using assms(2) deletion_events_no_sender by (auto simp: n)
qed

text \<open>
  C1. The checks of the forward stage, in their order. After the first push the hop-count
  block, if there is one, is incremented in place; a count above the limit deletes the
  bundle with reason \<open>HopLimitExceeded\<close>. Otherwise the lifetime predicate of the primary
  block is evaluated, on the pack as it is before any update of the age; if it holds the
  bundle is deleted with reason \<open>LifetimeExpired\<close> and its age block is left alone. Only
  then the bundle-age block is updated, and an updated age that is at least the lifetime
  deletes the bundle with reason \<open>LifetimeExpired\<close>. In each of the three cases the result
  of the stage is the result of the deletion: what the stage did before it holds no lookup
  of a sender, no routing query and no send, and after it the stage does nothing. The
  deletion adds the emission of the report, if the bundle asks for one, the push and the
  mark; without a report the whole trace of the stage is free of sender events.
\<close>

theorem forward_check_order:
  assumes h: "forward_hop_count (Push c bp1) bp1 = Inr (exceeded, bp2, c2)"
      and b: "bp1 = RemoveConstraint (AddConstraint bp ForwardPending) DispatchPending"
  shows
    "new_events c c2
       = EvPush bp1 # (case hop_count bp1 of None \<Rightarrow> [] | Some hc \<Rightarrow> [EvHopCount (Increment hc)])
   \<and> (case hop_count bp1 of
         None \<Rightarrow> \<not> exceeded \<and> bp2 = bp1
       | Some hc \<Rightarrow> exceeded = (Limit hc < Count hc + 1) \<and> hop_count bp2 = Some (Increment hc))
   \<and> (\<forall>age. \<forall>e \<in> set (new_events c c2 @ [EvLifetimeCheck bp2, EvUpdateBundleAge age]).
          \<not> sender_event e)
   \<and> (exceeded \<longrightarrow>
        (\<exists>c'. forward c bp = Inr (PurgeConstraints bp2, c')
            \<and> c' = snd (bundleDeletion c2 bp2 HopLimitExceeded)
            \<and> new_events c c' = new_events c c2 @ deletion_events c2 bp2 HopLimitExceeded
            \<and> (StatusRequestDeletion \<notin> BundleControlFlags (PrimaryBlock (Bundle bp2)) \<longrightarrow>
                 (\<forall>e \<in> set (new_events c c'). \<not> sender_event e))))
   \<and> (\<not> exceeded \<and> IsLifetimeExceeded c (PrimaryBlock (Bundle bp2)) \<longrightarrow>
        (\<exists>c'. forward c bp = Inr (PurgeConstraints bp2, c')
            \<and> c' = snd (bundleDeletion (emit c2 (EvLifetimeCheck bp2)) bp2 LifetimeExpired)
            \<and> new_events c c'
                = new_events c c2 @ [EvLifetimeCheck bp2]
                  @ deletion_events (emit c2 (EvLifetimeCheck bp2)) bp2 LifetimeExpired
            \<and> (StatusRequestDeletion \<notin> BundleControlFlags (PrimaryBlock (Bundle bp2)) \<longrightarrow>
                 (\<forall>e \<in> set (new_events c c'). \<not> sender_event e))))
   \<and> (\<not> exceeded \<and> \<not> IsLifetimeExceeded c (PrimaryBlock (Bundle bp2)) \<longrightarrow>
        (\<forall>age bp3. UpdateBundleAge c bp2 = Some (age, bp3)
                    \<and> Lifetime (PrimaryBlock (Bundle bp3)) \<le> age \<longrightarrow>
           (\<exists>c'. forward c bp = Inr (PurgeConstraints bp3, c')
               \<and> c' = snd (bundleDeletion
                             (emit (emit c2 (EvLifetimeCheck bp2)) (EvUpdateBundleAge age))
                             bp3 LifetimeExpired)
               \<and> new_events c c'
                   = new_events c c2 @ [EvLifetimeCheck bp2, EvUpdateBundleAge age]
                     @ deletion_events
                         (emit (emit c2 (EvLifetimeCheck bp2)) (EvUpdateBundleAge age))
                         bp3 LifetimeExpired
               \<and> (StatusRequestDeletion \<notin> BundleControlFlags (PrimaryBlock (Bundle bp3)) \<longrightarrow>
                    (\<forall>e \<in> set (new_events c c'). \<not> sender_event e)))))"
proof -
  let ?hop = "case hop_count bp1 of None \<Rightarrow> [] | Some hc \<Rightarrow> [EvHopCount (Increment hc)]"
  note t = forward_hop_count_trace [OF h]
  note f = forward_unfold [OF h b]
  have tr2: "trace c2 = trace c @ EvPush bp1 # ?hop"
    by (simp add: t(1))
  have n2: "new_events c c2 = EvPush bp1 # ?hop"
    using tr2 by (rule new_events_append)
  have ns2: "\<forall>e \<in> set (EvPush bp1 # ?hop). \<not> sender_event e"
    by (cases "hop_count bp1") simp_all
  have pre: "\<forall>age. \<forall>e \<in> set (new_events c c2 @ [EvLifetimeCheck bp2, EvUpdateBundleAge age]).
               \<not> sender_event e"
    using ns2 by (simp add: n2)
  have c1: "\<exists>c'. forward c bp = Inr (PurgeConstraints bp2, c')
            \<and> c' = snd (bundleDeletion c2 bp2 HopLimitExceeded)
            \<and> new_events c c' = new_events c c2 @ deletion_events c2 bp2 HopLimitExceeded
            \<and> (StatusRequestDeletion \<notin> BundleControlFlags (PrimaryBlock (Bundle bp2)) \<longrightarrow>
                 (\<forall>e \<in> set (new_events c c'). \<not> sender_event e))" if exceeded
  proof -
    have "forward c bp = Inr (PurgeConstraints bp2, snd (bundleDeletion c2 bp2 HopLimitExceeded))"
      using that by (simp add: f bundleDeletion_eq)
    then show ?thesis
      using deleted_after [OF tr2 ns2, of bp2 HopLimitExceeded] unfolding n2 by blast
  qed
  have c2: "\<exists>c'. forward c bp = Inr (PurgeConstraints bp2, c')
            \<and> c' = snd (bundleDeletion (emit c2 (EvLifetimeCheck bp2)) bp2 LifetimeExpired)
            \<and> new_events c c'
                = new_events c c2 @ [EvLifetimeCheck bp2]
                  @ deletion_events (emit c2 (EvLifetimeCheck bp2)) bp2 LifetimeExpired
            \<and> (StatusRequestDeletion \<notin> BundleControlFlags (PrimaryBlock (Bundle bp2)) \<longrightarrow>
                 (\<forall>e \<in> set (new_events c c'). \<not> sender_event e))"
    if "\<not> exceeded" "IsLifetimeExceeded c (PrimaryBlock (Bundle bp2))"
  proof -
    have tr: "trace (emit c2 (EvLifetimeCheck bp2)) = trace c @ ((EvPush bp1 # ?hop) @ [EvLifetimeCheck bp2])"
      by (simp add: tr2)
    have ns: "\<forall>e \<in> set ((EvPush bp1 # ?hop) @ [EvLifetimeCheck bp2]). \<not> sender_event e"
      using ns2 by simp
    have "forward c bp
            = Inr (PurgeConstraints bp2,
                   snd (bundleDeletion (emit c2 (EvLifetimeCheck bp2)) bp2 LifetimeExpired))"
      using that by (simp add: f bundleDeletion_eq)
    then show ?thesis
      using deleted_after [OF tr ns, of bp2 LifetimeExpired] unfolding n2 by auto
  qed
  have c3: "\<exists>c'. forward c bp = Inr (PurgeConstraints bp3, c')
               \<and> c' = snd (bundleDeletion
                             (emit (emit c2 (EvLifetimeCheck bp2)) (EvUpdateBundleAge age))
                             bp3 LifetimeExpired)
               \<and> new_events c c'
                   = new_events c c2 @ [EvLifetimeCheck bp2, EvUpdateBundleAge age]
                     @ deletion_events
                         (emit (emit c2 (EvLifetimeCheck bp2)) (EvUpdateBundleAge age))
                         bp3 LifetimeExpired
               \<and> (StatusRequestDeletion \<notin> BundleControlFlags (PrimaryBlock (Bundle bp3)) \<longrightarrow>
                    (\<forall>e \<in> set (new_events c c'). \<not> sender_event e))"
    if "\<not> exceeded" "\<not> IsLifetimeExceeded c (PrimaryBlock (Bundle bp2))"
       "UpdateBundleAge c bp2 = Some (age, bp3)" "Lifetime (PrimaryBlock (Bundle bp3)) \<le> age"
    for age bp3
  proof -
    let ?c4 = "emit (emit c2 (EvLifetimeCheck bp2)) (EvUpdateBundleAge age)"
    have tr: "trace ?c4
                = trace c @ ((EvPush bp1 # ?hop) @ [EvLifetimeCheck bp2, EvUpdateBundleAge age])"
      by (simp add: tr2)
    have ns: "\<forall>e \<in> set ((EvPush bp1 # ?hop) @ [EvLifetimeCheck bp2, EvUpdateBundleAge age]).
                \<not> sender_event e"
      using ns2 by simp
    have "forward c bp = Inr (PurgeConstraints bp3, snd (bundleDeletion ?c4 bp3 LifetimeExpired))"
      using that by (simp add: f bundleDeletion_eq)
    then show ?thesis
      using deleted_after [OF tr ns, of bp3 LifetimeExpired] unfolding n2 by auto
  qed
  show ?thesis
    using n2 t(4) pre c1 c2 c3 by (intro conjI impI allI) (simp, simp, blast+)
qed

theorem forward_check_order_witness:
  "\<exists>bp2 c2.
     forward_hop_count
       (Push (reporting (this_node False))
          (RemoveConstraint
             (AddConstraint (pack (primary_to ep_peer ep_elsewhere {StatusRequestDeletion})
                               [payload_block, hop_block 1 1]) ForwardPending) DispatchPending))
       (RemoveConstraint
          (AddConstraint (pack (primary_to ep_peer ep_elsewhere {StatusRequestDeletion})
                            [payload_block, hop_block 1 1]) ForwardPending) DispatchPending)
       = Inr (True, bp2, c2)
   \<and> hop_count bp2 = Some \<lparr>Limit = 1, Count = 2\<rparr>
   \<and> (\<exists>c'. forward (reporting (this_node False))
               (pack (primary_to ep_peer ep_elsewhere {StatusRequestDeletion})
                  [payload_block, hop_block 1 1])
             = Inr (PurgeConstraints bp2, c')
           \<and> c' = snd (bundleDeletion c2 bp2 HopLimitExceeded)
           \<and> new_events (reporting (this_node False)) c'
               = new_events (reporting (this_node False)) c2 @ deletion_events c2 bp2 HopLimitExceeded)"
proof -
  let ?bp = "pack (primary_to ep_peer ep_elsewhere {StatusRequestDeletion}) [payload_block, hop_block 1 1]"
  let ?bp1 = "RemoveConstraint (AddConstraint ?bp ForwardPending) DispatchPending"
  have hc: "hop_count ?bp1 = Some \<lparr>Limit = 1, Count = 1\<rparr>"
    by (simp add: hop_count_def pack_def payload_block_def hop_block_def)
  obtain bp2 where h: "forward_hop_count (Push (reporting (this_node False)) ?bp1) ?bp1
       = Inr (True, bp2, emit (Push (reporting (this_node False)) ?bp1) (EvHopCount (Increment \<lparr>Limit = 1, Count = 1\<rparr>)))"
    and h2: "hop_count bp2 = Some (Increment \<lparr>Limit = 1, Count = 1\<rparr>)"
    using forward_hop_count_present [OF hc, of "Push (reporting (this_node False)) ?bp1"] by auto
  show ?thesis
    using h h2 forward_check_order [OF h refl] by (auto simp: Increment_def)
qed

section \<open>The hop count over repeated forwards\<close>

lemma hop_count_cong:
  "Bundle bp' = Bundle bp \<Longrightarrow> hop_count bp' = hop_count bp"
  by (simp add: hop_count_def)

lemma payload_is_bytes_cong:
  "Bundle bp' = Bundle bp \<Longrightarrow> payload_is_bytes bp' = payload_is_bytes bp"
  by (simp add: payload_is_bytes_def)

lemma hop_count_simps [simp]:
  "hop_count (AddConstraint bp k) = hop_count bp"
  "hop_count (RemoveConstraint bp k) = hop_count bp"
  "hop_count (PurgeConstraints bp) = hop_count bp"
  by (simp_all add: hop_count_def)

lemma payload_is_bytes_simps [simp]:
  "payload_is_bytes (AddConstraint bp k) = payload_is_bytes bp"
  "payload_is_bytes (RemoveConstraint bp k) = payload_is_bytes bp"
  "payload_is_bytes (PurgeConstraints bp) = payload_is_bytes bp"
  by (simp_all add: payload_is_bytes_def)

lemma forward_one_pass:
  assumes hc: "hop_count bp = Some hc"
  shows "(\<forall>bp' c'. forward c bp = Inr (bp', c') \<longrightarrow>
            hop_count bp' = Some (Increment hc) \<and> payload_is_bytes bp' = payload_is_bytes bp)
       \<and> (payload_is_bytes bp \<longrightarrow> (\<exists>bp' c'. forward c bp = Inr (bp', c')))"
proof -
  define bp1 where "bp1 = RemoveConstraint (AddConstraint bp ForwardPending) DispatchPending"
  have hc1: "hop_count bp1 = Some hc"
    using hc by (simp add: bp1_def)
  have pb1: "payload_is_bytes bp1 = payload_is_bytes bp"
    by (simp add: bp1_def)
  obtain ex bp2 c2 where h: "forward_hop_count (Push c bp1) bp1 = Inr (ex, bp2, c2)"
    and hc2: "hop_count bp2 = Some (Increment hc)"
    and pb2: "payload_is_bytes bp2 = payload_is_bytes bp1"
    using forward_hop_count_present [OF hc1, of "Push c bp1"] by blast
  note f = forward_unfold [OF h bp1_def]
  have keep: "hop_count bp' = Some (Increment hc) \<and> payload_is_bytes bp' = payload_is_bytes bp"
    if r: "forward c bp = Inr (bp', c')" for bp' c'
  proof (cases "ex \<or> IsLifetimeExceeded c (PrimaryBlock (Bundle bp2))")
    case True
    then have "bp' = PurgeConstraints bp2"
      using r by (auto simp: f bundleDeletion_eq split: if_splits)
    then show ?thesis
      using hc2 pb2 pb1
      by simp
  next
    case False
    show ?thesis
    proof (cases "UpdateBundleAge c bp2")
      case None
      then have "forward_send (emit c2 (EvLifetimeCheck bp2)) bp2 = Inr (bp', c')"
        using r False by (simp add: f)
      then have "Bundle bp' = Bundle bp2" by (rule forward_send_bundle)
      then have "hop_count bp' = hop_count bp2" "payload_is_bytes bp' = payload_is_bytes bp2"
        by (rule hop_count_cong, rule payload_is_bytes_cong)
      then show ?thesis
        using hc2 pb2 pb1 by simp
    next
      case (Some a)
      obtain age bp3 where a: "a = (age, bp3)" by (cases a)
      note k = UpdateBundleAge_keeps [OF Some [unfolded a]]
      have "Bundle bp' = Bundle bp3"
      proof (cases "Lifetime (PrimaryBlock (Bundle bp3)) \<le> age")
        case True
        then have "bp' = PurgeConstraints bp3"
          using r False Some a by (auto simp: f bundleDeletion_eq)
        then show ?thesis by simp
      next
        case l: False
        then have "forward_send (emit (emit c2 (EvLifetimeCheck bp2)) (EvUpdateBundleAge age)) bp3
                     = Inr (bp', c')"
          using r False Some a by (simp add: f)
        then show ?thesis by (rule forward_send_bundle)
      qed
      then have "hop_count bp' = hop_count bp3" "payload_is_bytes bp' = payload_is_bytes bp3"
        by (rule hop_count_cong, rule payload_is_bytes_cong)
      then show ?thesis
        using hc2 pb2 pb1 k by simp
    qed
  qed
  have total: "\<exists>bp' c'. forward c bp = Inr (bp', c')" if p: "payload_is_bytes bp"
  proof -
    have p2: "payload_is_bytes bp2" using p pb1 pb2 by simp
    show ?thesis
    proof (cases "UpdateBundleAge c bp2")
      case None
      then show ?thesis
        using forward_send_returns [OF p2, of "emit c2 (EvLifetimeCheck bp2)"]
        by (auto simp: f bundleDeletion_eq)
    next
      case (Some a)
      obtain age bp3 where a: "a = (age, bp3)" by (cases a)
      have p3: "payload_is_bytes bp3"
        using UpdateBundleAge_keeps [OF Some [unfolded a]] p2 by simp
      show ?thesis
        using Some a forward_send_returns [OF p3,
            of "emit (emit c2 (EvLifetimeCheck bp2)) (EvUpdateBundleAge age)"]
        by (auto simp: f bundleDeletion_eq)
    qed
  qed
  show ?thesis using keep total by blast
qed

lemma forward_passes_keep:
  assumes "hop_count bp = Some hc" "forward_passes n c bp = Inr (bp', c')"
  shows "hop_count bp' = Some (hc\<lparr>Count := n + Count hc\<rparr>)
         \<and> payload_is_bytes bp' = payload_is_bytes bp"
  using assms(2)
proof (induction n arbitrary: bp' c')
  case 0
  then show ?case using assms(1) by simp
next
  case (Suc n)
  then obtain bpn cn where p: "forward_passes n c bp = Inr (bpn, cn)"
    and f: "forward cn bpn = Inr (bp', c')"
    by (auto split: sum.splits)
  note ih = Suc.IH [OF p]
  have "hop_count bp' = Some (Increment (hc\<lparr>Count := n + Count hc\<rparr>))
        \<and> payload_is_bytes bp' = payload_is_bytes bpn"
    using forward_one_pass [of bpn "hc\<lparr>Count := n + Count hc\<rparr>" cn] ih f by blast
  then show ?case using ih by (simp add: Increment_def)
qed

lemma forward_passes_total:
  assumes "hop_count bp = Some hc" "payload_is_bytes bp"
  shows "\<exists>bp' c'. forward_passes n c bp = Inr (bp', c')"
proof (induction n)
  case 0
  show ?case by simp
next
  case (Suc n)
  then obtain bpn cn where q: "forward_passes n c bp = Inr (bpn, cn)" by blast
  have "hop_count bpn = Some (hc\<lparr>Count := n + Count hc\<rparr>)" "payload_is_bytes bpn"
    using forward_passes_keep [OF assms(1) q] assms(2) by simp_all
  then have "\<exists>bp' c'. forward cn bpn = Inr (bp', c')"
    using forward_one_pass [of bpn "hc\<lparr>Count := n + Count hc\<rparr>" cn] by blast
  then show ?case using q by auto
qed

text \<open>
  C2. For a bundle that carries a hop-count block with count \<open>c\<close>, the block in the bundle
  has count \<open>n + c\<close> after the \<open>n\<close>-th pass through the forward stage: each pass writes
  the incremented count back before it tests the limit. Every pass that returns gives this
  count, and the passes do return when the payload block carries bytes (the one other type
  assertion of the stage).
\<close>

theorem forward_passes_hop_count:
  assumes "hop_count bp = Some hc"
  shows "(\<forall>bp' c'. forward_passes n c bp = Inr (bp', c') \<longrightarrow>
            hop_count bp' = Some (hc\<lparr>Count := n + Count hc\<rparr>))
       \<and> (payload_is_bytes bp \<longrightarrow>
            (\<exists>bp' c'. forward_passes n c bp = Inr (bp', c')
                     \<and> hop_count bp' = Some (hc\<lparr>Count := n + Count hc\<rparr>)))"
  using forward_passes_keep [OF assms] forward_passes_total [OF assms] by blast

theorem forward_passes_hop_count_witness:
  "hop_count (pack (primary_to ep_peer ep_elsewhere {}) [payload_block, hop_block 64 3])
     = Some \<lparr>Limit = 64, Count = 3\<rparr>
   \<and> payload_is_bytes (pack (primary_to ep_peer ep_elsewhere {}) [payload_block, hop_block 64 3])
   \<and> (\<exists>bp' c'. forward_passes 2 (this_node False)
                     (pack (primary_to ep_peer ep_elsewhere {}) [payload_block, hop_block 64 3])
                   = Inr (bp', c')
                \<and> hop_count bp' = Some \<lparr>Limit = 64, Count = 5\<rparr>)"
proof -
  let ?bp = "pack (primary_to ep_peer ep_elsewhere {}) [payload_block, hop_block 64 3]"
  have h: "hop_count ?bp = Some \<lparr>Limit = 64, Count = 3\<rparr>"
    by (simp add: hop_count_def pack_def payload_block_def hop_block_def)
  have p: "payload_is_bytes ?bp"
    by (simp add: payload_is_bytes_def pack_def payload_block_def hop_block_def)
  show ?thesis
    using h p forward_passes_hop_count [OF h, of 2 "this_node False"] by simp
qed

section \<open>The transmission of a status report\<close>

text \<open>
  The stages return on a bundle whose payload block carries bytes and that has no hop-count
  block: the two type assertions are the only way a stage ends without a result.
\<close>

lemma checkAdministrativeRecord_returns:
  "payload_is_bytes bp \<Longrightarrow> \<exists>ok c'. checkAdministrativeRecord c bp = Inr (ok, c')"
  by (auto simp: checkAdministrativeRecord_def payload_is_bytes_def Let_def
      split: option.splits BlockData.splits)

lemma localDelivery_returns:
  assumes "payload_is_bytes bp"
  shows "\<exists>bp' c'. localDelivery c bp = Inr (bp', c')"
  using checkAdministrativeRecord_returns [OF assms, of c]
  by (auto simp: localDelivery_def Let_def bundleDeletion_eq split: sum.splits)

lemma forward_returns:
  assumes p: "payload_is_bytes bp"
    and h: "ExtensionBlock (CanonicalBlocks (Bundle bp)) HopCountBlock = None"
  shows "\<exists>bp' c'. forward c bp = Inr (bp', c')"
proof -
  let ?bp1 = "RemoveConstraint (AddConstraint bp ForwardPending) DispatchPending"
  let ?c3 = "emit (Push c ?bp1) (EvLifetimeCheck ?bp1)"
  have h1: "forward_hop_count (Push c ?bp1) ?bp1 = Inr (False, ?bp1, Push c ?bp1)"
    using h by (simp add: forward_hop_count_def AddConstraint_def RemoveConstraint_def)
  have p1: "payload_is_bytes ?bp1" using p by simp
  show ?thesis
  proof (cases "UpdateBundleAge ?c3 ?bp1")
    case None
    then show ?thesis
      using forward_send_returns [OF p1, of ?c3]
      by (auto simp: forward_def h1 Let_def bundleDeletion_eq)
  next
    case (Some a)
    obtain age bp3 where a: "a = (age, bp3)" by (cases a)
    have p3: "payload_is_bytes bp3"
      using UpdateBundleAge_keeps [OF Some [unfolded a]] p1 by simp
    show ?thesis
      using Some a forward_send_returns [OF p3, of "emit ?c3 (EvUpdateBundleAge age)"]
      by (auto simp: forward_def h1 Let_def bundleDeletion_eq)
  qed
qed

lemma transmit_returns:
  assumes p: "payload_is_bytes bp"
    and h: "ExtensionBlock (CanonicalBlocks (Bundle bp)) HopCountBlock = None"
  shows "\<exists>bp' c'. transmit c bp = Inr (bp', c')"
proof -
  obtain bp1 c1 where u: "idKeeper_update_pack c bp = (bp1, c1)"
    by (cases "idKeeper_update_pack c bp")
  have b: "CanonicalBlocks (Bundle bp1) = CanonicalBlocks (Bundle bp)"
    using u by (auto simp: idKeeper_update_pack_def Let_def split: prod.splits)
  let ?bp2 = "AddConstraint bp1 DispatchPending"
  have p2: "payload_is_bytes ?bp2"
    using p b by (simp add: payload_is_bytes_def)
  have h2: "ExtensionBlock (CanonicalBlocks (Bundle ?bp2)) HopCountBlock = None"
    using h b by (simp add: AddConstraint_def)
  show ?thesis
    using localDelivery_returns [OF p2] forward_returns [OF p2 h2]
    by (auto simp: transmit_def u Let_def dispatching_def bundleDeletion_eq)
qed

text \<open>
  A report is an administrative bundle of this node for the report-to endpoint of its
  subject; it asks for no report and carries no hop count, so its run through \<open>transmit\<close>
  returns.
\<close>

lemma report_pack_fields:
  "BundleControlFlags (PrimaryBlock (Bundle (report_pack c bp status reason)))
     = {AdministrativeRecordPayload}"
  "SourceNode (PrimaryBlock (Bundle (report_pack c bp status reason))) = NodeId c"
  "Destination (PrimaryBlock (Bundle (report_pack c bp status reason)))
     = ReportTo (PrimaryBlock (Bundle bp))"
  "payload_is_bytes (report_pack c bp status reason)"
  "ExtensionBlock (CanonicalBlocks (Bundle (report_pack c bp status reason))) HopCountBlock = None"
  by (simp_all add: report_pack_def payload_is_bytes_def ExtensionBlock_def)

lemma transmit_report_pack_returns:
  "\<exists>rp c'. transmit c (report_pack c0 bp status reason) = Inr (rp, c')"
  by (rule transmit_returns) (rule report_pack_fields)+

lemma emit_transmission:
  "emit (c\<lparr>ReportTransmission := f\<rparr>) e = (emit c e)\<lparr>ReportTransmission := f\<rparr>"
  by (simp add: emit_def)

lemma Push_transmission:
  "Push (c\<lparr>ReportTransmission := f\<rparr>) bp = (Push c bp)\<lparr>ReportTransmission := f\<rparr>"
  by (simp add: Push_def emit_def)

lemma idKeeper_update_pack_transmission:
  "idKeeper_update_pack (c\<lparr>ReportTransmission := f\<rparr>) bp
   = apsnd (\<lambda>c'. c'\<lparr>ReportTransmission := f\<rparr>) (idKeeper_update_pack c bp)"
  by (simp add: idKeeper_update_pack_def emit_def Let_def split: prod.splits)

lemma forward_hop_count_transmission:
  "forward_hop_count (c\<lparr>ReportTransmission := f\<rparr>) bp
   = map_sum id (apsnd (apsnd (\<lambda>c'. c'\<lparr>ReportTransmission := f\<rparr>))) (forward_hop_count c bp)"
  by (simp add: forward_hop_count_def emit_def Let_def split: option.splits BlockData.splits)

lemma UpdateBundleAge_transmission:
  "UpdateBundleAge (c\<lparr>ReportTransmission := f\<rparr>) bp = UpdateBundleAge c bp"
  by (rule UpdateBundleAge_core) simp

lemma senders_transmission:
  "RemoveConvergenceSender (c\<lparr>ReportTransmission := f\<rparr>) cs
   = (RemoveConvergenceSender c cs)\<lparr>ReportTransmission := f\<rparr>"
  "RegisterConvergenceSender (c\<lparr>ReportTransmission := f\<rparr>) cs
   = (RegisterConvergenceSender c cs)\<lparr>ReportTransmission := f\<rparr>"
  by (simp_all add: RemoveConvergenceSender_def RegisterConvergenceSender_def emit_def)

lemma fan_out_transmission:
  "fan_out b nodes (s, c\<lparr>ReportTransmission := f\<rparr>)
   = apsnd (\<lambda>c'. c'\<lparr>ReportTransmission := f\<rparr>) (fan_out b nodes (s, c))"
  by (induction nodes arbitrary: s c)
     (simp_all add: Let_def emit_transmission senders_transmission)

lemma inspect_item_transmission:
  "inspect_item (c\<lparr>ReportTransmission := f\<rparr>, bp) s
   = apfst (\<lambda>c'. c'\<lparr>ReportTransmission := f\<rparr>) (inspect_item (c, bp) s)"
  by (cases s) (simp_all add: Let_def Push_transmission)

lemma inspect_items_transmission:
  "foldl inspect_item (c\<lparr>ReportTransmission := f\<rparr>, bp) ss
   = apfst (\<lambda>c'. c'\<lparr>ReportTransmission := f\<rparr>) (foldl inspect_item (c, bp) ss)"
proof (induction ss arbitrary: c bp)
  case Nil
  show ?case by simp
next
  case (Cons s ss)
  obtain c1 bp1 where i: "inspect_item (c, bp) s = (c1, bp1)"
    by (cases "inspect_item (c, bp) s")
  show ?case
    using Cons [of c1 bp1] by (simp add: inspect_item_transmission i del: inspect_item.simps)
qed

lemma inspectStatusReport_transmission:
  "inspectStatusReport (c\<lparr>ReportTransmission := f\<rparr>) ar
   = (inspectStatusReport c ar)\<lparr>ReportTransmission := f\<rparr>"
  by (simp add: inspectStatusReport_def Let_def inspect_items_transmission)

lemma checkAdministrativeRecord_transmission:
  "checkAdministrativeRecord (c\<lparr>ReportTransmission := f\<rparr>) bp
   = map_sum id (apsnd (\<lambda>c'. c'\<lparr>ReportTransmission := f\<rparr>)) (checkAdministrativeRecord c bp)"
  by (simp add: checkAdministrativeRecord_def Let_def emit_transmission
      inspectStatusReport_transmission split: option.splits BlockData.splits)

lemma bundleContraindicated_transmission:
  "bundleContraindicated (c\<lparr>ReportTransmission := f\<rparr>) bp
   = apsnd (\<lambda>c'. c'\<lparr>ReportTransmission := f\<rparr>) (bundleContraindicated c bp)"
  by (simp add: bundleContraindicated_def Let_def Push_transmission)

lemma bundleDeletion_transmission:
  assumes "StatusRequestDeletion \<notin> BundleControlFlags (PrimaryBlock (Bundle bp))"
  shows "bundleDeletion (c\<lparr>ReportTransmission := f\<rparr>) bp r
         = apsnd (\<lambda>c'. c'\<lparr>ReportTransmission := f\<rparr>) (bundleDeletion c bp r)"
  using assms by (simp add: bundleDeletion_def Let_def Push_transmission emit_transmission)


lemma forward_send_transmission:
  assumes "StatusRequestForward \<notin> BundleControlFlags (PrimaryBlock (Bundle bp))"
  shows "forward_send (c\<lparr>ReportTransmission := f\<rparr>) bp
         = map_sum id (apsnd (\<lambda>c'. c'\<lparr>ReportTransmission := f\<rparr>)) (forward_send c bp)"
proof -
  have d: "senderForDestination (c\<lparr>ReportTransmission := f\<rparr>) e = senderForDestination c e" for e
    by (simp add: senderForDestination_def)
  show ?thesis
    using assms
    by (simp add: forward_send_def d Let_def split_beta emit_transmission fan_out_transmission
        bundleContraindicated_transmission checkAdministrativeRecord_transmission
        Push_transmission split: sum.splits)
qed

lemma forward_hop_count_primary:
  "forward_hop_count c bp = Inr (ex, bp2, c2) \<Longrightarrow>
     PrimaryBlock (Bundle bp2) = PrimaryBlock (Bundle bp)"
  by (auto simp: forward_hop_count_def Let_def split: option.splits BlockData.splits)

lemma forward_transmission:
  assumes "StatusRequestForward \<notin> BundleControlFlags (PrimaryBlock (Bundle bp))"
    and "StatusRequestDeletion \<notin> BundleControlFlags (PrimaryBlock (Bundle bp))"
  shows "forward (c\<lparr>ReportTransmission := f\<rparr>) bp
         = map_sum id (apsnd (\<lambda>c'. c'\<lparr>ReportTransmission := f\<rparr>)) (forward c bp)"
proof -
  let ?bp1 = "RemoveConstraint (AddConstraint bp ForwardPending) DispatchPending"
  show ?thesis
  proof (cases "forward_hop_count (Push c ?bp1) ?bp1")
    case (Inl p)
    then show ?thesis
      by (simp add: forward_def Let_def Push_transmission forward_hop_count_transmission)
  next
    case (Inr r)
    obtain ex bp2 c2 where r: "r = (ex, bp2, c2)" by (cases r)
    have p2: "PrimaryBlock (Bundle bp2) = PrimaryBlock (Bundle bp)"
      using forward_hop_count_primary [OF Inr [unfolded r]] by simp
    have q2: "StatusRequestForward \<notin> BundleControlFlags (PrimaryBlock (Bundle bp2))"
      "StatusRequestDeletion \<notin> BundleControlFlags (PrimaryBlock (Bundle bp2))"
      using assms p2 by simp_all
    show ?thesis
    proof (cases "UpdateBundleAge (emit c2 (EvLifetimeCheck bp2)) bp2")
      case None
      then show ?thesis
        using Inr r q2
        by (simp add: forward_def Let_def Push_transmission forward_hop_count_transmission
            emit_transmission bundleDeletion_transmission UpdateBundleAge_transmission
            forward_send_transmission)
    next
      case (Some a)
      obtain age bp3 where a: "a = (age, bp3)" by (cases a)
      have p3: "PrimaryBlock (Bundle bp3) = PrimaryBlock (Bundle bp2)"
        using UpdateBundleAge_keeps [OF Some [unfolded a]] by simp
      have q3: "StatusRequestForward \<notin> BundleControlFlags (PrimaryBlock (Bundle bp3))"
        "StatusRequestDeletion \<notin> BundleControlFlags (PrimaryBlock (Bundle bp3))"
        using q2 p3 by simp_all
      show ?thesis
        using Inr r q2 q3 Some a
        by (simp add: forward_def Let_def Push_transmission forward_hop_count_transmission
            emit_transmission bundleDeletion_transmission UpdateBundleAge_transmission
            forward_send_transmission)
    qed
  qed
qed

lemma deliveries_transmission:
  "foldl (\<lambda>c' agent. if AgentEndpointID agent = dst then emit c' (EvDeliver agent b) else c')
     (c\<lparr>ReportTransmission := f\<rparr>) as
   = (foldl (\<lambda>c' agent. if AgentEndpointID agent = dst then emit c' (EvDeliver agent b) else c')
        c as)\<lparr>ReportTransmission := f\<rparr>"
  by (induction as arbitrary: c) (simp_all add: emit_transmission)



lemma localDelivery_transmission:
  assumes "StatusRequestDelivery \<notin> BundleControlFlags (PrimaryBlock (Bundle bp))"
    and "StatusRequestDeletion \<notin> BundleControlFlags (PrimaryBlock (Bundle bp))"
  shows "localDelivery (c\<lparr>ReportTransmission := f\<rparr>) bp
         = map_sum id (apsnd (\<lambda>c'. c'\<lparr>ReportTransmission := f\<rparr>)) (localDelivery c bp)"
proof (cases "if IsAdministrativeRecord (Bundle bp)
              then checkAdministrativeRecord c bp else Inr (True, c)")
  case (Inl p)
  then show ?thesis
    by (simp add: localDelivery_def checkAdministrativeRecord_transmission split: if_splits)
next
  case (Inr r)
  obtain ok c1 where r: "r = (ok, c1)" by (cases r)
  have l: "(if IsAdministrativeRecord (Bundle bp)
            then checkAdministrativeRecord (c\<lparr>ReportTransmission := f\<rparr>) bp
            else Inr (True, c\<lparr>ReportTransmission := f\<rparr>))
           = Inr (ok, c1\<lparr>ReportTransmission := f\<rparr>)"
    using Inr r by (simp add: checkAdministrativeRecord_transmission split: if_splits)
  show ?thesis
    using assms
    by (simp add: localDelivery_def l Inr r Let_def bundleDeletion_transmission
        deliveries_transmission emit_transmission Push_transmission)
qed

lemma dispatching_transmission:
  assumes "StatusRequestDelivery \<notin> BundleControlFlags (PrimaryBlock (Bundle bp))"
    and "StatusRequestForward \<notin> BundleControlFlags (PrimaryBlock (Bundle bp))"
    and "StatusRequestDeletion \<notin> BundleControlFlags (PrimaryBlock (Bundle bp))"
  shows "dispatching (c\<lparr>ReportTransmission := f\<rparr>) bp
         = map_sum id (apsnd (\<lambda>c'. c'\<lparr>ReportTransmission := f\<rparr>)) (dispatching c bp)"
  using assms
  by (simp add: dispatching_def Let_def emit_transmission HasEndpoint_def
      localDelivery_transmission forward_transmission)

lemma transmit_transmission:
  assumes "StatusRequestDelivery \<notin> BundleControlFlags (PrimaryBlock (Bundle bp))"
    and "StatusRequestForward \<notin> BundleControlFlags (PrimaryBlock (Bundle bp))"
    and "StatusRequestDeletion \<notin> BundleControlFlags (PrimaryBlock (Bundle bp))"
  shows "transmit (c\<lparr>ReportTransmission := f\<rparr>) bp
         = map_sum id (apsnd (\<lambda>c'. c'\<lparr>ReportTransmission := f\<rparr>)) (transmit c bp)"
proof -
  obtain bp1 c1 where u: "idKeeper_update_pack c bp = (bp1, c1)"
    by (cases "idKeeper_update_pack c bp")
  let ?bp2 = "AddConstraint bp1 DispatchPending"
  have q: "BundleControlFlags (PrimaryBlock (Bundle ?bp2))
           = BundleControlFlags (PrimaryBlock (Bundle bp))"
    using idKeeper_update_result [OF u] by simp
  have q2: "StatusRequestDelivery \<notin> BundleControlFlags (PrimaryBlock (Bundle ?bp2))"
    "StatusRequestForward \<notin> BundleControlFlags (PrimaryBlock (Bundle ?bp2))"
    "StatusRequestDeletion \<notin> BundleControlFlags (PrimaryBlock (Bundle ?bp2))"
    unfolding q using assms by simp_all
  show ?thesis
    by (simp add: transmit_def idKeeper_update_pack_transmission u Let_def Push_transmission
        HasEndpoint_def bundleDeletion_transmission [OF q2(3)]
        dispatching_transmission [OF q2])
qed

text \<open>
  No stage sends a report about a bundle that asks for none, so the run of a stage on such
  a bundle does not depend on how reports travel. A report asks for none: its run on the
  core whose reports travel through \<open>transmit\<close> is the run \<open>transmit_report\<close> models.
\<close>

lemma report_transmission_needs_none:
  "transmit (c\<lparr>ReportTransmission := f\<rparr>) (report_pack c0 bp status reason)
   = map_sum id (apsnd (\<lambda>c'. c'\<lparr>ReportTransmission := f\<rparr>))
       (transmit (c\<lparr>ReportTransmission := no_transmission\<rparr>) (report_pack c0 bp status reason))"
  using transmit_transmission [where bp = "report_pack c0 bp status reason"
      and c = "c\<lparr>ReportTransmission := no_transmission\<rparr>" and f = f]
  by (simp add: report_pack_fields)


lemma transmit_report_fixed:
  "transmit_report c (report_pack c0 bp status reason) (st, ik, css)
   = (case transmit (c\<lparr>store := st, idKeeper := ik, convergenceSenders := css,
                        ReportTransmission := transmit_report c, trace := []\<rparr>)
             (report_pack c0 bp status reason) of
        Inl p \<Rightarrow> ((st, ik, css), [])
      | Inr (bp', c') \<Rightarrow> ((store c', idKeeper c', convergenceSenders c'), trace c'))"
proof -
  define cn where "cn = c\<lparr>store := st, idKeeper := ik, convergenceSenders := css,
                          ReportTransmission := no_transmission, trace := []\<rparr>"
  define cr where "cr = c\<lparr>store := st, idKeeper := ik, convergenceSenders := css,
                          ReportTransmission := transmit_report c, trace := []\<rparr>"
  have "cr = cn\<lparr>ReportTransmission := transmit_report c\<rparr>"
    "cn = cn\<lparr>ReportTransmission := no_transmission\<rparr>"
    by (simp_all add: cr_def cn_def)
  then have e: "transmit cr (report_pack c0 bp status reason)
           = map_sum id (apsnd (\<lambda>c'. c'\<lparr>ReportTransmission := transmit_report c\<rparr>))
               (transmit cn (report_pack c0 bp status reason))"
    using report_transmission_needs_none [where c = cn and f = "transmit_report c"]
    by metis
  have t: "transmit_report c (report_pack c0 bp status reason) (st, ik, css)
           = (case transmit cn (report_pack c0 bp status reason) of
                Inl p \<Rightarrow> ((st, ik, css), [])
              | Inr (bp', c') \<Rightarrow> ((store c', idKeeper c', convergenceSenders c'), trace c'))"
    by (simp add: transmit_report_def cn_def)
  have "(case transmit cn (report_pack c0 bp status reason) of
                Inl p \<Rightarrow> ((st, ik, css), [])
              | Inr (bp', c') \<Rightarrow> ((store c', idKeeper c', convergenceSenders c'), trace c'))
        = (case transmit cr (report_pack c0 bp status reason) of
                Inl p \<Rightarrow> ((st, ik, css), [])
              | Inr (bp', c') \<Rightarrow> ((store c', idKeeper c', convergenceSenders c'), trace c'))"
    unfolding e by (cases "transmit cn (report_pack c0 bp status reason)") auto
  then show ?thesis
    unfolding t by (simp add: cr_def)
qed

text \<open>
  On a core whose reports travel through \<open>transmit\<close>, emitting a report leaves the store,
  the id keeper and the registry of that run, and the trace holds the call followed by
  the events of the run.
\<close>

lemma SendStatusReport_reporting:
  assumes "ReportTransmission c = transmit_report c0"
  shows "\<exists>rp c'.
           transmit (c0\<lparr>store := store c, idKeeper := idKeeper c,
                        convergenceSenders := convergenceSenders c,
                        ReportTransmission := no_transmission, trace := []\<rparr>)
             (report_pack c bp status reason) = Inr (rp, c')
         \<and> SendStatusReport c bp status reason
           = c\<lparr>store := store c', idKeeper := idKeeper c',
                convergenceSenders := convergenceSenders c',
                trace := trace c @ EvStatusReport (ID bp) status reason # trace c'\<rparr>"
proof -
  obtain rp c' where t: "transmit (c0\<lparr>store := store c, idKeeper := idKeeper c,
                        convergenceSenders := convergenceSenders c,
                        ReportTransmission := no_transmission, trace := []\<rparr>)
             (report_pack c bp status reason) = Inr (rp, c')"
    using transmit_report_pack_returns by blast
  show ?thesis
    using assms t by (simp add: SendStatusReport_def transmit_report_def emit_def)
qed

text \<open>
  A bundle of a foreign source that asks for the deletion report, transmitted by the node
  of the scenarios: the report is dispatched by the pipeline, the bundle is not.
\<close>

lemma report_travels:
  "EvDispatching (ep_self, (5, 0), 0, 0)
     \<in> set (returned_trace (transmit (reporting (this_node False))
              (pack (primary_to ep_peer ep_elsewhere {StatusRequestDeletion}) [payload_block])))
   \<and> EvDispatching (ep_elsewhere, (10, 0), 0, 0)
     \<notin> set (returned_trace (transmit (reporting (this_node False))
              (pack (primary_to ep_peer ep_elsewhere {StatusRequestDeletion}) [payload_block])))"
  by (simp add: returned_trace_def reporting_def transmit_report_def no_transmission_def
      transmit_def idKeeper_update_pack_def report_pack_def report_record_def dtnVersion_def
      scenario_defs stage_defs DtnNone_def)

section \<open>The walk over the canonical blocks at receive\<close>

lemma filter_all_but_two:
  assumes jk: "j < k" and k: "k < length xs"
      and P: "\<forall>i < length xs. (\<not> P (xs ! i)) = (i = j \<or> i = k)"
  shows "filter P xs = take j xs @ drop (Suc j) (take k xs) @ drop (Suc k) xs"
proof -
  have j: "j < length (take k xs)" using jk k by simp
  have t: "take k xs = take j xs @ xs ! j # drop (Suc j) (take k xs)"
    using id_take_nth_drop [OF j] jk by (simp add: min_def)
  have x: "xs = take k xs @ xs ! k # drop (Suc k) xs"
    using id_take_nth_drop [OF k] .
  have a: "\<forall>x \<in> set (take j xs). P x"
  proof
    fix x assume "x \<in> set (take j xs)"
    then obtain i where "i < length (take j xs)" "take j xs ! i = x"
      by (auto simp: in_set_conv_nth)
    then have "i < j" "i < length xs" "xs ! i = x" using jk k by auto
    then show "P x" using P jk by auto
  qed
  have b: "\<forall>x \<in> set (drop (Suc j) (take k xs)). P x"
  proof
    fix x assume "x \<in> set (drop (Suc j) (take k xs))"
    then obtain i where i: "i < length (drop (Suc j) (take k xs))" "drop (Suc j) (take k xs) ! i = x"
      by (auto simp: in_set_conv_nth)
    then have "Suc j + i < k" "Suc j + i < length xs" using k by auto
    moreover from this i have "xs ! (Suc j + i) = x" by simp
    ultimately show "P x" using P by (metis less_irrefl_nat not_add_less1 plus_nat.simps(2) less_add_Suc1 not_less_eq)
  qed
  have c: "\<forall>x \<in> set (drop (Suc k) xs). P x"
  proof
    fix x assume "x \<in> set (drop (Suc k) xs)"
    then obtain i where i: "i < length (drop (Suc k) xs)" "drop (Suc k) xs ! i = x"
      by (auto simp: in_set_conv_nth)
    then have l: "Suc k + i < length xs" by auto
    moreover from this i have "xs ! (Suc k + i) = x" by simp
    moreover have "Suc k + i \<noteq> j" "Suc k + i \<noteq> k" using jk by auto
    ultimately show "P x" using P by blast
  qed
  have nj: "\<not> P (xs ! j)" and nk: "\<not> P (xs ! k)" using P jk k by auto
  have "filter P xs = filter P (take k xs) @ filter P (xs ! k # drop (Suc k) xs)"
    by (metis x filter_append)
  also have "filter P (xs ! k # drop (Suc k) xs) = drop (Suc k) xs"
    using nk c by (simp add: filter_id_conv)
  also have "filter P (take k xs) = filter P (take j xs) @ filter P (xs ! j # drop (Suc j) (take k xs))"
    by (metis t filter_append)
  also have "filter P (take j xs) = take j xs"
    using a by (simp add: filter_id_conv)
  also have "filter P (xs ! j # drop (Suc j) (take k xs)) = drop (Suc j) (take k xs)"
    using nj b by (simp add: filter_id_conv)
  finally show ?thesis by simp
qed

lemma set_blocks_simps [simp]:
  "CanonicalBlocks (Bundle (set_blocks bp cbs)) = cbs"
  "PrimaryBlock (Bundle (set_blocks bp cbs)) = PrimaryBlock (Bundle bp)"
  "Constraints (set_blocks bp cbs) = Constraints bp"
  "Timestamp (set_blocks bp cbs) = Timestamp bp"
  "set_blocks (set_blocks bp cbs) cbs' = set_blocks bp cbs'"
  "set_blocks bp (CanonicalBlocks (Bundle bp)) = bp"
  by (simp_all add: set_blocks_def)

lemma receive_walk_step_keep:
  assumes "i < length (CanonicalBlocks (Bundle bp))"
      and "\<not> deletion_requested (CanonicalBlocks (Bundle bp) ! i)"
      and "\<not> removal_requested (CanonicalBlocks (Bundle bp) ! i)"
  shows "\<exists>c1. receive_walk (Suc i) c bp = receive_walk i c1 bp"
  using assms
  by (auto simp: Let_def deletion_requested_def removal_requested_def)

lemma receive_walk_step_remove:
  assumes "i < length (CanonicalBlocks (Bundle bp))"
      and "removal_requested (CanonicalBlocks (Bundle bp) ! i)"
  shows "\<exists>c1. receive_walk (Suc i) c bp
                = receive_walk i c1
                    (set_blocks bp (take i (CanonicalBlocks (Bundle bp))
                                    @ drop (Suc i) (CanonicalBlocks (Bundle bp))))"
  using assms
  by (auto simp: Let_def removal_requested_def set_blocks_def)

lemma receive_walk_step_delete:
  assumes "i < length (CanonicalBlocks (Bundle bp))"
      and "deletion_requested (CanonicalBlocks (Bundle bp) ! i)"
  shows "receive_walk (Suc i) c bp
           = Inr (True, PurgeConstraints bp,
                  snd (bundleDeletion
                         (if StatusReportBlock
                               \<in> BlockControlFlags (CanonicalBlocks (Bundle bp) ! i)
                          then SendStatusReport c bp ReceivedBundle BlockUnintelligible else c)
                         bp BlockUnintelligible))"
  using assms
  by (auto simp: Let_def deletion_requested_def bundleDeletion_eq split: prod.splits)

lemma ID_set_blocks [simp]: "ID (set_blocks bp cbs) = ID bp"
  by (simp add: ID_def set_blocks_def)

lemma receive_walk_segment:
  assumes "m \<le> n"
      and "n \<le> length (CanonicalBlocks (Bundle bp))"
      and "\<forall>i. m \<le> i \<and> i < n \<longrightarrow> \<not> deletion_requested (CanonicalBlocks (Bundle bp) ! i)"
  shows "\<exists>c'. receive_walk n c bp
                = receive_walk m c'
                    (set_blocks bp
                       (take m (CanonicalBlocks (Bundle bp))
                        @ filter (\<lambda>cb. \<not> removal_requested cb)
                            (drop m (take n (CanonicalBlocks (Bundle bp))))
                        @ drop n (CanonicalBlocks (Bundle bp))))"
  using assms
proof (induction n arbitrary: c bp rule: nat_induct_at_least)
  case base
  show ?case by (intro exI [of _ c]) simp
next
  case (Suc n)
  let ?cbs = "CanonicalBlocks (Bundle bp)"
  have n: "n < length ?cbs" using Suc.prems by simp
  have nd: "\<not> deletion_requested (?cbs ! n)" using Suc.prems Suc.hyps by simp
  have seg: "drop m (take (Suc n) ?cbs) = drop m (take n ?cbs) @ [?cbs ! n]"
    using n Suc.hyps by (simp add: take_Suc_conv_app_nth)
  show ?case
  proof (cases "removal_requested (?cbs ! n)")
    case True
    define cbs1 where "cbs1 = take n ?cbs @ drop (Suc n) ?cbs"
    obtain c1 where s: "receive_walk (Suc n) c bp = receive_walk n c1 (set_blocks bp cbs1)"
      using receive_walk_step_remove [OF n True] unfolding cbs1_def by blast
    have e: "take m cbs1 = take m ?cbs" "take n cbs1 = take n ?cbs" "drop n cbs1 = drop (Suc n) ?cbs"
            "n \<le> length cbs1"
      using n Suc.hyps by (simp_all add: cbs1_def min_def)
    have l: "n \<le> length (CanonicalBlocks (Bundle (set_blocks bp cbs1)))" using e by simp
    have "\<forall>i. m \<le> i \<and> i < n \<longrightarrow> cbs1 ! i = ?cbs ! i"
      using n by (simp add: cbs1_def nth_append)
    then have d: "\<forall>i. m \<le> i \<and> i < n \<longrightarrow>
                   \<not> deletion_requested (CanonicalBlocks (Bundle (set_blocks bp cbs1)) ! i)"
      using Suc.prems by simp
    obtain c' where r: "receive_walk n c1 (set_blocks bp cbs1)
        = receive_walk m c'
            (set_blocks (set_blocks bp cbs1)
               (take m (CanonicalBlocks (Bundle (set_blocks bp cbs1)))
                @ filter (\<lambda>cb. \<not> removal_requested cb)
                    (drop m (take n (CanonicalBlocks (Bundle (set_blocks bp cbs1)))))
                @ drop n (CanonicalBlocks (Bundle (set_blocks bp cbs1)))))"
      using Suc.IH [OF l d, of c1] by blast
    have "receive_walk (Suc n) c bp
            = receive_walk m c'
                (set_blocks bp
                   (take m ?cbs @ filter (\<lambda>cb. \<not> removal_requested cb) (drop m (take (Suc n) ?cbs))
                    @ drop (Suc n) ?cbs))"
      unfolding s r by (simp add: e seg True del: receive_walk.simps)
    then show ?thesis by blast
  next
    case False
    obtain c1 where s: "receive_walk (Suc n) c bp = receive_walk n c1 bp"
      using receive_walk_step_keep [OF n nd False] by blast
    have l: "n \<le> length ?cbs" using n by simp
    have d: "\<forall>i. m \<le> i \<and> i < n \<longrightarrow> \<not> deletion_requested (?cbs ! i)"
      using Suc.prems by simp
    obtain c' where r: "receive_walk n c1 bp
        = receive_walk m c'
            (set_blocks bp
               (take m ?cbs @ filter (\<lambda>cb. \<not> removal_requested cb) (drop m (take n ?cbs))
                @ drop n ?cbs))"
      using Suc.IH [OF l d, of c1] by blast
    have dn: "drop n ?cbs = ?cbs ! n # drop (Suc n) ?cbs"
      using n by (simp add: Cons_nth_drop_Suc)
    have "receive_walk (Suc n) c bp
            = receive_walk m c'
                (set_blocks bp
                   (take m ?cbs @ filter (\<lambda>cb. \<not> removal_requested cb) (drop m (take (Suc n) ?cbs))
                    @ drop (Suc n) ?cbs))"
      unfolding s r by (simp add: seg False dn del: receive_walk.simps)
    then show ?thesis by blast
  qed
qed

lemma receive_fresh:
  assumes "\<not> KnowsBundle (store c) bp"
  shows "\<exists>c2. receive c bp
               = (case receive_walk (length (CanonicalBlocks (Bundle bp))) c2
                          (AddConstraint bp DispatchPending) of
                    Inl p \<Rightarrow> Inl p
                  | Inr (deleted, bp2, c3) \<Rightarrow> if deleted then Inr (bp2, c3) else dispatching c3 bp2)"
  using assms by (auto simp: receive_def Let_def simp del: receive_walk.simps)

text \<open>
  C4, as the code has it. At receive of a bundle the store does not know, the canonical
  blocks are walked from the highest index down, and the walk ends with the bundle's
  deletion at the first unknown block met that asks for it. If no unknown block asks for
  the deletion, the bundle handed to dispatching has exactly the blocks of the original
  that are not unknown blocks asking for their removal, unchanged and in order; with such
  blocks at exactly two indices \<open>j < k\<close> it is the original with those two excised. If an
  unknown block asks for the deletion, the highest such block at index \<open>d\<close>, the walk
  excises the removal-requesting unknown blocks above \<open>d\<close> only and the blocks up to \<open>d\<close>
  stay; the result of receive is the deletion of that pack with reason
  \<open>BlockUnintelligible\<close>, which ends the trace: a \<open>DeletedBundle\<close> report with that reason
  is emitted when the bundle asks for the deletion status, and a \<open>ReceivedBundle\<close> report
  with that reason when the block at \<open>d\<close> asks for a report.
\<close>

theorem receive_walk_removes:
  assumes fresh: "\<not> KnowsBundle (store c) bp"
      and cbs: "cbs = CanonicalBlocks (Bundle bp)"
  shows "((\<forall>i < length cbs. \<not> deletion_requested (cbs ! i)) \<longrightarrow>
            (\<exists>c'. receive c bp
                    = dispatching c'
                        (set_blocks (AddConstraint bp DispatchPending)
                           (filter (\<lambda>cb. \<not> removal_requested cb) cbs)))
          \<and> (\<forall>j k. j < k \<and> k < length cbs
                    \<and> (\<forall>i < length cbs. removal_requested (cbs ! i) = (i = j \<or> i = k)) \<longrightarrow>
                (\<exists>c'. receive c bp
                        = dispatching c'
                            (set_blocks (AddConstraint bp DispatchPending)
                               (take j cbs @ drop (Suc j) (take k cbs) @ drop (Suc k) cbs)))))
       \<and> (\<forall>d. d < length cbs \<and> deletion_requested (cbs ! d)
               \<and> (\<forall>i. d < i \<and> i < length cbs \<longrightarrow> \<not> deletion_requested (cbs ! i)) \<longrightarrow>
            (\<exists>c1 c'. receive c bp
                    = Inr (PurgeConstraints
                             (set_blocks bp
                                (take (Suc d) cbs
                                 @ filter (\<lambda>cb. \<not> removal_requested cb) (drop (Suc d) cbs))),
                           c')
                \<and> c' = snd (bundleDeletion c1
                              (set_blocks (AddConstraint bp DispatchPending)
                                 (take (Suc d) cbs
                                  @ filter (\<lambda>cb. \<not> removal_requested cb) (drop (Suc d) cbs)))
                              BlockUnintelligible)
                \<and> trace c'
                    = trace c1
                      @ deletion_events c1
                          (set_blocks (AddConstraint bp DispatchPending)
                             (take (Suc d) cbs
                              @ filter (\<lambda>cb. \<not> removal_requested cb) (drop (Suc d) cbs)))
                          BlockUnintelligible
                \<and> (StatusRequestDeletion \<in> BundleControlFlags (PrimaryBlock (Bundle bp)) \<longrightarrow>
                     EvStatusReport (ID bp) DeletedBundle BlockUnintelligible \<in> set (trace c'))
                \<and> (StatusReportBlock \<in> BlockControlFlags (cbs ! d) \<longrightarrow>
                     EvStatusReport (ID bp) ReceivedBundle BlockUnintelligible \<in> set (trace c'))))"
proof -
  let ?bp1 = "AddConstraint bp DispatchPending"
  obtain c2 where rc: "receive c bp
       = (case receive_walk (length cbs) c2 ?bp1 of
            Inl p \<Rightarrow> Inl p
          | Inr (deleted, bp2, c3) \<Rightarrow> if deleted then Inr (bp2, c3) else dispatching c3 bp2)"
    using receive_fresh [OF fresh] cbs by blast
  have a: "\<exists>c'. receive c bp
                    = dispatching c'
                        (set_blocks ?bp1 (filter (\<lambda>cb. \<not> removal_requested cb) cbs))"
    if nd: "\<forall>i < length cbs. \<not> deletion_requested (cbs ! i)"
  proof -
    have l: "length cbs \<le> length (CanonicalBlocks (Bundle ?bp1))" by (simp add: cbs)
    have d: "\<forall>i. 0 \<le> i \<and> i < length cbs \<longrightarrow>
                \<not> deletion_requested (CanonicalBlocks (Bundle ?bp1) ! i)"
      using nd by (simp add: cbs)
    obtain c' where "receive_walk (length cbs) c2 ?bp1
        = receive_walk 0 c'
            (set_blocks ?bp1
               (take 0 (CanonicalBlocks (Bundle ?bp1))
                @ filter (\<lambda>cb. \<not> removal_requested cb)
                    (drop 0 (take (length cbs) (CanonicalBlocks (Bundle ?bp1))))
                @ drop (length cbs) (CanonicalBlocks (Bundle ?bp1))))"
      using receive_walk_segment [OF le0 l d, of c2] by blast
    then have "receive_walk (length cbs) c2 ?bp1
        = Inr (False, set_blocks ?bp1 (filter (\<lambda>cb. \<not> removal_requested cb) cbs), c')"
      by (simp add: cbs)
    then show ?thesis
      unfolding rc by auto
  qed
  have b: "\<exists>c'. receive c bp
                        = dispatching c'
                            (set_blocks ?bp1
                               (take j cbs @ drop (Suc j) (take k cbs) @ drop (Suc k) cbs))"
    if nd: "\<forall>i < length cbs. \<not> deletion_requested (cbs ! i)"
      and jk: "j < k" "k < length cbs"
      and two: "\<forall>i < length cbs. removal_requested (cbs ! i) = (i = j \<or> i = k)" for j k
  proof -
    have "\<forall>i < length cbs. (\<not> \<not> removal_requested (cbs ! i)) = (i = j \<or> i = k)"
      using two by simp
    then have "filter (\<lambda>cb. \<not> removal_requested cb) cbs
            = take j cbs @ drop (Suc j) (take k cbs) @ drop (Suc k) cbs"
      by (rule filter_all_but_two [OF jk])
    then show ?thesis using a [OF nd] by simp
  qed
  have e: "\<exists>c1 c'. receive c bp
                    = Inr (PurgeConstraints
                             (set_blocks bp
                                (take (Suc d) cbs
                                 @ filter (\<lambda>cb. \<not> removal_requested cb) (drop (Suc d) cbs))),
                           c')
                \<and> c' = snd (bundleDeletion c1
                              (set_blocks (AddConstraint bp DispatchPending)
                                 (take (Suc d) cbs
                                  @ filter (\<lambda>cb. \<not> removal_requested cb) (drop (Suc d) cbs)))
                              BlockUnintelligible)
                \<and> trace c'
                    = trace c1
                      @ deletion_events c1
                          (set_blocks (AddConstraint bp DispatchPending)
                             (take (Suc d) cbs
                              @ filter (\<lambda>cb. \<not> removal_requested cb) (drop (Suc d) cbs)))
                          BlockUnintelligible
                \<and> (StatusRequestDeletion \<in> BundleControlFlags (PrimaryBlock (Bundle bp)) \<longrightarrow>
                     EvStatusReport (ID bp) DeletedBundle BlockUnintelligible \<in> set (trace c'))
                \<and> (StatusReportBlock \<in> BlockControlFlags (cbs ! d) \<longrightarrow>
                     EvStatusReport (ID bp) ReceivedBundle BlockUnintelligible \<in> set (trace c'))"
    if d: "d < length cbs" and dr: "deletion_requested (cbs ! d)"
      and above: "\<forall>i. d < i \<and> i < length cbs \<longrightarrow> \<not> deletion_requested (cbs ! i)" for d
  proof -
    let ?rest = "take (Suc d) cbs @ filter (\<lambda>cb. \<not> removal_requested cb) (drop (Suc d) cbs)"
    define X where "X = set_blocks ?bp1 ?rest"
    have m: "Suc d \<le> length cbs" using d by simp
    have l: "length cbs \<le> length (CanonicalBlocks (Bundle ?bp1))" by (simp add: cbs)
    have nd: "\<forall>i. Suc d \<le> i \<and> i < length cbs \<longrightarrow>
                \<not> deletion_requested (CanonicalBlocks (Bundle ?bp1) ! i)"
      using above by (simp add: cbs)
    obtain c0 where "receive_walk (length cbs) c2 ?bp1
        = receive_walk (Suc d) c0
            (set_blocks ?bp1
               (take (Suc d) (CanonicalBlocks (Bundle ?bp1))
                @ filter (\<lambda>cb. \<not> removal_requested cb)
                    (drop (Suc d) (take (length cbs) (CanonicalBlocks (Bundle ?bp1))))
                @ drop (length cbs) (CanonicalBlocks (Bundle ?bp1))))"
      using receive_walk_segment [OF m l nd, of c2] by blast
    then have w: "receive_walk (length cbs) c2 ?bp1 = receive_walk (Suc d) c0 X"
      by (simp add: cbs X_def del: receive_walk.simps)
    have xd: "CanonicalBlocks (Bundle X) ! d = cbs ! d"
      using d by (simp add: X_def nth_append)
    have i: "d < length (CanonicalBlocks (Bundle X))"
      using d by (simp add: X_def)
    have dd: "deletion_requested (CanonicalBlocks (Bundle X) ! d)"
      using dr by (simp add: xd)
    define c1 where "c1 = (if StatusReportBlock \<in> BlockControlFlags (cbs ! d)
                           then SendStatusReport c0 X ReceivedBundle BlockUnintelligible else c0)"
    define c' where "c' = snd (bundleDeletion c1 X BlockUnintelligible)"
    have sd: "receive_walk (Suc d) c0 X = Inr (True, PurgeConstraints X, c')"
      using receive_walk_step_delete [OF i dd, of c0] by (simp add: xd c1_def c'_def)
    have px: "PurgeConstraints X = PurgeConstraints (set_blocks bp ?rest)"
      by (simp add: X_def set_blocks_def PurgeConstraints_def AddConstraint_def)
    have r: "receive c bp = Inr (PurgeConstraints (set_blocks bp ?rest), c')"
      unfolding rc w sd by (simp add: px)
    have t: "trace c' = trace c1 @ deletion_events c1 X BlockUnintelligible"
      by (simp add: c'_def bundleDeletion_trace)
    have idx: "ID X = ID bp" "BundleControlFlags (PrimaryBlock (Bundle X))
                               = BundleControlFlags (PrimaryBlock (Bundle bp))"
      by (simp_all add: X_def)
    have del: "EvStatusReport (ID bp) DeletedBundle BlockUnintelligible \<in> set (trace c')"
      if "StatusRequestDeletion \<in> BundleControlFlags (PrimaryBlock (Bundle bp))"
      using that by (simp add: t deletion_events_def idx report_events_head)
    have rcv: "EvStatusReport (ID bp) ReceivedBundle BlockUnintelligible \<in> set (trace c')"
      if "StatusReportBlock \<in> BlockControlFlags (cbs ! d)"
      using that by (simp add: t c1_def idx report_events_head)
    show ?thesis
      using r t del rcv unfolding c'_def X_def by blast
  qed
  show ?thesis
    using a b e by blast
qed

text \<open>
  An unknown block that asks for its removal, and not for the deletion, survives the walk
  when a block above it asks for the deletion of the bundle.
\<close>

theorem receive_removal_counterexample:
  "removal_requested (unknown_block 3 {RemoveBlock})
   \<and> returned_blocks
        (receive (this_node False)
           (pack (primary_to ep_peer ep_elsewhere {})
              [payload_block, unknown_block 3 {RemoveBlock}, unknown_block 4 {DeleteBundle}]))
       = Some [payload_block, unknown_block 3 {RemoveBlock}, unknown_block 4 {DeleteBundle}]"
  by (simp add: removal_requested_def returned_blocks_def scenario_defs stage_defs)

theorem receive_walk_removes_witness:
  "\<not> KnowsBundle (store (this_node False))
       (pack (primary_to ep_peer ep_elsewhere {})
          [payload_block, unknown_block 3 {RemoveBlock}, hop_block 64 3,
           unknown_block 4 {RemoveBlock, StatusReportBlock}])
   \<and> removal_requested (unknown_block 3 {RemoveBlock})
   \<and> removal_requested (unknown_block 4 {RemoveBlock, StatusReportBlock})
   \<and> \<not> removal_requested payload_block \<and> \<not> removal_requested (hop_block 64 3)
   \<and> (\<exists>c'. receive (this_node False)
              (pack (primary_to ep_peer ep_elsewhere {})
                 [payload_block, unknown_block 3 {RemoveBlock}, hop_block 64 3,
                  unknown_block 4 {RemoveBlock, StatusReportBlock}])
            = dispatching c'
                (set_blocks
                   (AddConstraint
                      (pack (primary_to ep_peer ep_elsewhere {})
                         [payload_block, unknown_block 3 {RemoveBlock}, hop_block 64 3,
                          unknown_block 4 {RemoveBlock, StatusReportBlock}]) DispatchPending)
                   [payload_block, hop_block 64 3]))
   \<and> deletion_requested (unknown_block 4 {DeleteBundle, StatusReportBlock})
   \<and> (\<exists>c'. receive (reporting (this_node False))
              (pack (primary_to ep_peer ep_elsewhere {StatusRequestDeletion})
                 [payload_block, unknown_block 3 {RemoveBlock},
                  unknown_block 4 {DeleteBundle, StatusReportBlock}])
            = Inr (pack (primary_to ep_peer ep_elsewhere {StatusRequestDeletion})
                     [payload_block, unknown_block 3 {RemoveBlock},
                      unknown_block 4 {DeleteBundle, StatusReportBlock}], c')
          \<and> EvStatusReport (ep_elsewhere, (10, 0), 0, 0) DeletedBundle BlockUnintelligible
              \<in> set (trace c')
          \<and> EvStatusReport (ep_elsewhere, (10, 0), 0, 0) ReceivedBundle BlockUnintelligible
              \<in> set (trace c'))"
proof -
  let ?cbs = "[payload_block, unknown_block 3 {RemoveBlock}, hop_block 64 3,
               unknown_block 4 {RemoveBlock, StatusReportBlock}]"
  let ?bp = "pack (primary_to ep_peer ep_elsewhere {}) ?cbs"
  have f: "\<not> KnowsBundle (store (this_node False)) ?bp"
    by (simp add: KnowsBundle_def this_node_def)
  have c: "?cbs = CanonicalBlocks (Bundle ?bp)"
    by (simp add: pack_def)
  have l: "length ?cbs = 4" by simp
  have i4: "i < 4 \<longleftrightarrow> i = 0 \<or> i = 1 \<or> i = 2 \<or> i = 3" for i :: nat by auto
  have nd: "\<forall>i < length ?cbs. \<not> deletion_requested (?cbs ! i)"
    unfolding l
    by (auto simp: i4 deletion_requested_def payload_block_def hop_block_def unknown_block_def)
  have two: "\<forall>i < length ?cbs. removal_requested (?cbs ! i) = (i = 1 \<or> i = 3)"
    unfolding l
    by (auto simp: i4 removal_requested_def payload_block_def hop_block_def unknown_block_def)
  have jk: "(1::nat) < 3 \<and> 3 < length ?cbs \<and> (\<forall>i < length ?cbs. removal_requested (?cbs ! i) = (i = 1 \<or> i = 3))"
    using two by simp
  have "\<exists>c'. receive (this_node False) ?bp
            = dispatching c' (set_blocks (AddConstraint ?bp DispatchPending)
                               (take 1 ?cbs @ drop (Suc 1) (take 3 ?cbs) @ drop (Suc 3) ?cbs))"
    using receive_walk_removes [OF f c] nd jk by blast
  then have "\<exists>c'. receive (this_node False) ?bp
            = dispatching c' (set_blocks (AddConstraint ?bp DispatchPending) [payload_block, hop_block 64 3])"
    by (simp add: numeral_3_eq_3)
  moreover have "removal_requested (unknown_block 3 {RemoveBlock})"
    "removal_requested (unknown_block 4 {RemoveBlock, StatusReportBlock})"
    "\<not> removal_requested payload_block" "\<not> removal_requested (hop_block 64 3)"
    by (simp_all add: removal_requested_def payload_block_def hop_block_def unknown_block_def)
  moreover have "\<exists>c'. receive (reporting (this_node False))
              (pack (primary_to ep_peer ep_elsewhere {StatusRequestDeletion})
                 [payload_block, unknown_block 3 {RemoveBlock},
                  unknown_block 4 {DeleteBundle, StatusReportBlock}])
            = Inr (pack (primary_to ep_peer ep_elsewhere {StatusRequestDeletion})
                     [payload_block, unknown_block 3 {RemoveBlock},
                      unknown_block 4 {DeleteBundle, StatusReportBlock}], c')
          \<and> EvStatusReport (ep_elsewhere, (10, 0), 0, 0) DeletedBundle BlockUnintelligible
              \<in> set (trace c')
          \<and> EvStatusReport (ep_elsewhere, (10, 0), 0, 0) ReceivedBundle BlockUnintelligible
              \<in> set (trace c')"
  proof -
    let ?dbs = "[payload_block, unknown_block 3 {RemoveBlock},
                 unknown_block 4 {DeleteBundle, StatusReportBlock}]"
    let ?dp = "pack (primary_to ep_peer ep_elsewhere {StatusRequestDeletion}) ?dbs"
    have f': "\<not> KnowsBundle (store (reporting (this_node False))) ?dp"
      by (simp add: KnowsBundle_def reporting_def this_node_def)
    have c': "?dbs = CanonicalBlocks (Bundle ?dp)"
      by (simp add: pack_def)
    have d: "(2::nat) < length ?dbs \<and> deletion_requested (?dbs ! 2)
             \<and> (\<forall>i. 2 < i \<and> i < length ?dbs \<longrightarrow> \<not> deletion_requested (?dbs ! i))"
      by (simp add: deletion_requested_def unknown_block_def)
    have fl: "StatusRequestDeletion \<in> BundleControlFlags (PrimaryBlock (Bundle ?dp))"
      "StatusReportBlock \<in> BlockControlFlags (?dbs ! 2)"
      by (simp_all add: pack_def primary_to_def unknown_block_def)
    have "\<exists>c'. receive (reporting (this_node False)) ?dp
               = Inr (PurgeConstraints
                        (set_blocks ?dp
                           (take (Suc 2) ?dbs
                            @ filter (\<lambda>cb. \<not> removal_requested cb) (drop (Suc 2) ?dbs))), c')
             \<and> EvStatusReport (ID ?dp) DeletedBundle BlockUnintelligible \<in> set (trace c')
             \<and> EvStatusReport (ID ?dp) ReceivedBundle BlockUnintelligible \<in> set (trace c')"
      using receive_walk_removes [OF f' c'] d fl by blast
    then show ?thesis
      by (simp add: ID_def pack_def primary_to_def set_blocks_def PurgeConstraints_def)
  qed
  moreover have "deletion_requested (unknown_block 4 {DeleteBundle, StatusReportBlock})"
    by (simp add: deletion_requested_def unknown_block_def)
  ultimately show ?thesis
    using f by blast
qed

section \<open>The fan-out of the forward stage\<close>

lemma RemoveConvergenceSender_fields [simp]:
  "trace (RemoveConvergenceSender c cs) = trace c @ [EvRemoveSender cs]"
  "store (RemoveConvergenceSender c cs) = store c"
  "convergenceSenders (RemoveConvergenceSender c cs) = removeAll cs (convergenceSenders c)"
  "SendFails (RemoveConvergenceSender c cs) = SendFails c"
  "inspectAllBundles (RemoveConvergenceSender c cs) = inspectAllBundles c"
  by (simp_all add: RemoveConvergenceSender_def)

lemma RegisterConvergenceSender_fields [simp]:
  "trace (RegisterConvergenceSender c cs) = trace c @ [EvRegisterSender cs]"
  "store (RegisterConvergenceSender c cs) = store c"
  "convergenceSenders (RegisterConvergenceSender c cs) = convergenceSenders c @ [cs]"
  "SendFails (RegisterConvergenceSender c cs) = SendFails c"
  "inspectAllBundles (RegisterConvergenceSender c cs) = inspectAllBundles c"
  by (simp_all add: RegisterConvergenceSender_def)

lemma fan_out_keeps:
  "SendFails (snd (fan_out b nodes (sent, c))) = SendFails c
   \<and> store (snd (fan_out b nodes (sent, c))) = store c
   \<and> inspectAllBundles (snd (fan_out b nodes (sent, c))) = inspectAllBundles c"
  by (induction nodes arbitrary: sent c) (simp_all add: Let_def)

lemma fan_out_trace:
  "trace (snd (fan_out b nodes (sent, c))) = trace c @ concat (map (attempt_events c b) nodes)"
proof (induction nodes arbitrary: sent c)
  case Nil
  show ?case by simp
next
  case (Cons node nodes)
  let ?c2 = "RegisterConvergenceSender
               (RemoveConvergenceSender (emit (emit c (EvSend node b)) (EvClose node)) node) node"
  have "attempt_events ?c2 b = attempt_events c b"
       "attempt_events (emit c (EvSend node b)) b = attempt_events c b"
    by (rule ext, simp add: attempt_events_def)+
  then have a: "map (attempt_events ?c2 b) nodes = map (attempt_events c b) nodes"
          "map (attempt_events (emit c (EvSend node b)) b) nodes = map (attempt_events c b) nodes"
    by simp_all
  show ?case
    by (simp add: Let_def Cons.IH a) (simp add: attempt_events_def)
qed

lemma fan_out_sent:
  "fst (fan_out b nodes (sent, c)) = (sent \<or> (\<exists>node \<in> set nodes. \<not> SendFails c node b))"
  by (induction nodes arbitrary: sent c) (auto simp: Let_def)

lemma fan_out_single_failure:
  "SendFails c node b \<Longrightarrow>
     convergenceSenders (snd (fan_out b [node] (sent, c)))
       = removeAll node (convergenceSenders c) @ [node]"
  by (simp add: Let_def)

lemma SendStatusReport_params [simp]:
  "inspectAllBundles (SendStatusReport c bp s r) = inspectAllBundles c"
  "SendFails (SendStatusReport c bp s r) = SendFails c"
  "NewAdministrativeRecordFromCbor (SendStatusReport c bp s r) = NewAdministrativeRecordFromCbor c"
  by (simp_all add: SendStatusReport_def Let_def split: prod.splits)

lemma candidates_direct:
  "senderForDestination c (Destination (PrimaryBlock (Bundle bp))) \<noteq> [] \<Longrightarrow>
     candidates c bp = senderForDestination c (Destination (PrimaryBlock (Bundle bp)))"
  by (simp add: candidates_def)

lemma forward_send_unfold:
  assumes "candidates c bp \<noteq> []"
  shows "forward_send c bp =
     (let dst = Destination (PrimaryBlock (Bundle bp));
          direct = senderForDestination c dst;
          c2 = (if direct = []
                then emit (emit c (EvSenderForDestination dst)) (EvRoutingSenderForBundle (ID bp))
                else emit c (EvSenderForDestination dst));
          c3 = snd (fan_out (Bundle bp) (candidates c bp) (False, c2))
      in if \<exists>node \<in> set (candidates c bp). \<not> SendFails c node (Bundle bp)
         then
           (let c4 = (if StatusRequestForward \<in> BundleControlFlags (PrimaryBlock (Bundle bp))
                      then SendStatusReport c3 bp ForwardedBundle NoInformation else c3)
            in if direct \<noteq> [] \<or> snd (SenderForBundle c bp)
               then Inr (PurgeConstraints bp, Push c4 (PurgeConstraints bp))
               else if inspectAllBundles c \<and> IsAdministrativeRecord (Bundle bp)
               then (case checkAdministrativeRecord (Push c4 (AddConstraint bp Contraindicated))
                            (AddConstraint bp Contraindicated) of
                       Inl p \<Rightarrow> Inl p
                     | Inr (ok, c6) \<Rightarrow> Inr (AddConstraint bp Contraindicated, c6))
               else Inr (bp, c4))
         else Inr (AddConstraint bp Contraindicated, Push c3 (AddConstraint bp Contraindicated)))"
proof (cases "senderForDestination c (Destination (PrimaryBlock (Bundle bp))) = []")
  case True
  then have n: "fst (SenderForBundle c bp) \<noteq> []" "candidates c bp = fst (SenderForBundle c bp)"
    using assms by (simp_all add: candidates_def)
  show ?thesis
    using True n(1)
    by (auto simp: forward_send_def Let_def n(2) case_prod_beta fan_out_sent fan_out_keeps
        bundleContraindicated_def split: sum.splits)
next
  case False
  then have n: "candidates c bp = senderForDestination c (Destination (PrimaryBlock (Bundle bp)))"
    by (simp add: candidates_def)
  show ?thesis
    using False
    by (auto simp: forward_send_def Let_def n case_prod_beta fan_out_sent fan_out_keeps
        bundleContraindicated_def split: sum.splits)
qed

lemma attempt_events_emit [simp]:
  "attempt_events (emit c e) b = attempt_events c b"
  by (rule ext) (simp add: attempt_events_def)

lemma fan_out_no_routing:
  "EvRoutingSenderForBundle i \<notin> set (concat (map (attempt_events c b) nodes))"
  by (induction nodes) (simp_all add: attempt_events_def)

text \<open>
  C6. When the lookup of direct senders for the destination gives a non-empty list, the
  forward stage sends to exactly these senders and does not ask the routing algorithm: up
  to the end of the fan-out the stage adds the lookup and the attempts on these senders,
  and no routing query. The bundle counts as to be deleted after the send: if at least one
  send succeeds, the forward status report is emitted when asked for, the constraints are
  purged and the purged pack is pushed, whatever the routing algorithm or the inspection
  setting would say; if every send fails the pack is contraindicated. Beside the run of a
  report bundle, the whole trace of the stage holds no routing query.
\<close>

theorem direct_senders_bypass_routing:
  assumes d: "senderForDestination c (Destination (PrimaryBlock (Bundle bp))) = direct"
      and ne: "direct \<noteq> []"
  shows "\<exists>c3 c'.
           c3 = snd (fan_out (Bundle bp) direct
                       (False, emit c (EvSenderForDestination (Destination (PrimaryBlock (Bundle bp))))))
         \<and> new_events c c3
             = EvSenderForDestination (Destination (PrimaryBlock (Bundle bp)))
               # concat (map (attempt_events c (Bundle bp)) direct)
         \<and> (\<forall>i. EvRoutingSenderForBundle i \<notin> set (new_events c c3))
         \<and> forward_send c bp
             = Inr (if \<exists>node \<in> set direct. \<not> SendFails c node (Bundle bp)
                    then PurgeConstraints bp else AddConstraint bp Contraindicated, c')
         \<and> c' = (if \<exists>node \<in> set direct. \<not> SendFails c node (Bundle bp)
                  then Push (if StatusRequestForward \<in> BundleControlFlags (PrimaryBlock (Bundle bp))
                             then SendStatusReport c3 bp ForwardedBundle NoInformation else c3)
                            (PurgeConstraints bp)
                  else Push c3 (AddConstraint bp Contraindicated))
         \<and> new_events c c'
             = new_events c c3
               @ (if \<exists>node \<in> set direct. \<not> SendFails c node (Bundle bp)
                  then (if StatusRequestForward \<in> BundleControlFlags (PrimaryBlock (Bundle bp))
                        then report_events c3 bp ForwardedBundle NoInformation else [])
                       @ [EvPush (PurgeConstraints bp)]
                  else [EvPush (AddConstraint bp Contraindicated)])
         \<and> (StatusRequestForward \<notin> BundleControlFlags (PrimaryBlock (Bundle bp))
              \<or> \<not> (\<exists>node \<in> set direct. \<not> SendFails c node (Bundle bp))
              \<longrightarrow> (\<forall>i. EvRoutingSenderForBundle i \<notin> set (new_events c c')))
         \<and> ((\<exists>node \<in> set direct. \<not> SendFails c node (Bundle bp)) \<longrightarrow>
               map_of (store c') (ID bp) = Some (PurgeConstraints bp)
               \<and> Constraints (PurgeConstraints bp) = {})"
proof -
  let ?dst = "Destination (PrimaryBlock (Bundle bp))"
  let ?b = "Bundle bp"
  let ?c2 = "emit c (EvSenderForDestination ?dst)"
  define c3 where "c3 = snd (fan_out ?b direct (False, ?c2))"
  let ?att = "concat (map (attempt_events c ?b) direct)"
  have cd: "candidates c bp = direct" "candidates c bp \<noteq> []"
    using d ne by (simp_all add: candidates_def)
  have t3: "trace c3 = trace c @ EvSenderForDestination ?dst # ?att"
    by (simp add: c3_def fan_out_trace)
  have n3: "new_events c c3 = EvSenderForDestination ?dst # ?att"
    using t3 by (rule new_events_append)
  have r3: "\<forall>i. EvRoutingSenderForBundle i \<notin> set (new_events c c3)"
    using fan_out_no_routing [of _ c ?b direct] by (simp add: n3)
  show ?thesis
  proof (cases "\<exists>node \<in> set direct. \<not> SendFails c node ?b")
    case True
    let ?c4 = "if StatusRequestForward \<in> BundleControlFlags (PrimaryBlock ?b)
               then SendStatusReport c3 bp ForwardedBundle NoInformation else c3"
    let ?c' = "Push ?c4 (PurgeConstraints bp)"
    have f: "forward_send c bp = Inr (PurgeConstraints bp, ?c')"
      using True ne d
      by (simp add: forward_send_unfold [OF cd(2)] cd(1) Let_def c3_def del: fan_out.simps)
    have "trace ?c'
            = trace c @ ((EvSenderForDestination ?dst # ?att)
                 @ (if StatusRequestForward \<in> BundleControlFlags (PrimaryBlock ?b)
                    then report_events c3 bp ForwardedBundle NoInformation else [])
                 @ [EvPush (PurgeConstraints bp)])"
      by (simp add: t3)
    then have n: "new_events c ?c'
               = new_events c c3
                 @ (if StatusRequestForward \<in> BundleControlFlags (PrimaryBlock ?b)
                    then report_events c3 bp ForwardedBundle NoInformation else [])
                 @ [EvPush (PurgeConstraints bp)]"
      unfolding n3 by (rule new_events_append)
    have r: "\<forall>i. EvRoutingSenderForBundle i \<notin> set (new_events c ?c')"
      if "StatusRequestForward \<notin> BundleControlFlags (PrimaryBlock ?b)"
      using that r3 n by simp
    have m: "map_of (store ?c') (ID bp) = Some (PurgeConstraints bp)"
      by (simp add: update_conv)
    show ?thesis
      using True f n n3 r3 r m
      by (intro exI [of _ c3] exI [of _ ?c']) (simp add: c3_def del: fan_out.simps)
  next
    case False
    let ?c' = "Push c3 (AddConstraint bp Contraindicated)"
    have f: "forward_send c bp = Inr (AddConstraint bp Contraindicated, ?c')"
      using False ne d
      by (simp add: forward_send_unfold [OF cd(2)] cd(1) Let_def c3_def del: fan_out.simps)
    have "trace ?c' = trace c @ ((EvSenderForDestination ?dst # ?att)
                                 @ [EvPush (AddConstraint bp Contraindicated)])"
      by (simp add: t3)
    then have n: "new_events c ?c' = new_events c c3 @ [EvPush (AddConstraint bp Contraindicated)]"
      unfolding n3 by (rule new_events_append)
    have r: "\<forall>i. EvRoutingSenderForBundle i \<notin> set (new_events c ?c')"
      using r3 by (simp add: n)
    show ?thesis
      using False f n n3 r3 r
      by (intro exI [of _ c3] exI [of _ ?c']) (simp add: c3_def del: fan_out.simps)
  qed
qed

theorem direct_senders_bypass_routing_witness:
  "senderForDestination (this_node False)
     (Destination (PrimaryBlock (Bundle (pack (primary_to ep_peer ep_elsewhere {}) [payload_block]))))
     = [sender1]
   \<and> [sender1] \<noteq> []
   \<and> \<not> SendFails (this_node False) sender1
         (Bundle (pack (primary_to ep_peer ep_elsewhere {}) [payload_block]))
   \<and> (\<exists>c'. forward_send (this_node False) (pack (primary_to ep_peer ep_elsewhere {}) [payload_block])
              = Inr (PurgeConstraints (pack (primary_to ep_peer ep_elsewhere {}) [payload_block]), c')
            \<and> map_of (store c') (ID (pack (primary_to ep_peer ep_elsewhere {}) [payload_block]))
                = Some (PurgeConstraints (pack (primary_to ep_peer ep_elsewhere {}) [payload_block])))"
proof -
  let ?bp = "pack (primary_to ep_peer ep_elsewhere {}) [payload_block]"
  have d: "senderForDestination (this_node False) (Destination (PrimaryBlock (Bundle ?bp))) = [sender1]"
    by (simp add: senderForDestination_def this_node_def pack_def primary_to_def sender1_def)
  have ne: "[sender1] \<noteq> []" by simp
  have ok: "\<not> SendFails (this_node False) sender1 (Bundle ?bp)"
    by (simp add: this_node_def)
  show ?thesis
    using d ok direct_senders_bypass_routing [OF d ne] by auto
qed

text \<open>
  C5, as the code has it. The fan-out appends to the trace, for each candidate in turn, the
  send and, when the send fails, the close of that sender, its removal from the registry
  and the registration of that same sender. When the only candidate fails, the stage ends
  with the pack contraindicated and pushed, the sender is at the end of the registry, and
  the sender closed and the sender registered are the one candidate.
\<close>

theorem send_failure_restarts_sender:
  "trace (snd (fan_out b nodes (sent, c))) = trace c @ concat (map (attempt_events c b) nodes)
   \<and> (SendFails c node b \<longrightarrow>
        attempt_events c b node
          = [EvSend node b, EvClose node, EvRemoveSender node, EvRegisterSender node])
   \<and> (candidates c bp = [node] \<and> SendFails c node (Bundle bp) \<longrightarrow>
        (\<exists>c'. forward_send c bp = Inr (AddConstraint bp Contraindicated, c')
             \<and> Contraindicated \<in> Constraints (AddConstraint bp Contraindicated)
             \<and> map_of (store c') (ID bp) = Some (AddConstraint bp Contraindicated)
             \<and> convergenceSenders c' = removeAll node (convergenceSenders c) @ [node]
             \<and> new_events c c'
                 = EvSenderForDestination (Destination (PrimaryBlock (Bundle bp)))
                   # (if senderForDestination c (Destination (PrimaryBlock (Bundle bp))) = []
                      then [EvRoutingSenderForBundle (ID bp)] else [])
                   @ [EvSend node (Bundle bp), EvClose node, EvRemoveSender node,
                      EvRegisterSender node, EvPush (AddConstraint bp Contraindicated)]
             \<and> closed_senders (new_events c c') = [node]
             \<and> registered_senders (new_events c c') = [node]))"
proof -
  have single: "\<exists>c'. forward_send c bp = Inr (AddConstraint bp Contraindicated, c')
             \<and> Contraindicated \<in> Constraints (AddConstraint bp Contraindicated)
             \<and> map_of (store c') (ID bp) = Some (AddConstraint bp Contraindicated)
             \<and> convergenceSenders c' = removeAll node (convergenceSenders c) @ [node]
             \<and> new_events c c'
                 = EvSenderForDestination (Destination (PrimaryBlock (Bundle bp)))
                   # (if senderForDestination c (Destination (PrimaryBlock (Bundle bp))) = []
                      then [EvRoutingSenderForBundle (ID bp)] else [])
                   @ [EvSend node (Bundle bp), EvClose node, EvRemoveSender node,
                      EvRegisterSender node, EvPush (AddConstraint bp Contraindicated)]
             \<and> closed_senders (new_events c c') = [node]
             \<and> registered_senders (new_events c c') = [node]"
    if cd: "candidates c bp = [node]" and sf: "SendFails c node (Bundle bp)"
  proof -
    let ?dst = "Destination (PrimaryBlock (Bundle bp))"
    let ?b = "Bundle bp"
    let ?c2 = "if senderForDestination c ?dst = []
               then emit (emit c (EvSenderForDestination ?dst)) (EvRoutingSenderForBundle (ID bp))
               else emit c (EvSenderForDestination ?dst)"
    let ?c3 = "snd (fan_out ?b [node] (False, ?c2))"
    let ?c' = "Push ?c3 (AddConstraint bp Contraindicated)"
    have ne: "candidates c bp \<noteq> []" using cd by simp
    have f: "forward_send c bp = Inr (AddConstraint bp Contraindicated, ?c')"
      using sf by (simp add: forward_send_unfold [OF ne] cd Let_def)
    have sf2: "SendFails ?c2 node ?b" using sf by simp
    have t3: "trace ?c3 = trace ?c2 @ [EvSend node ?b, EvClose node, EvRemoveSender node,
                                       EvRegisterSender node]"
      using sf by (simp add: fan_out_trace attempt_events_def del: fan_out.simps)
    have n: "new_events c ?c'
                 = EvSenderForDestination ?dst
                   # (if senderForDestination c ?dst = [] then [EvRoutingSenderForBundle (ID bp)] else [])
                   @ [EvSend node ?b, EvClose node, EvRemoveSender node,
                      EvRegisterSender node, EvPush (AddConstraint bp Contraindicated)]"
      by (rule new_events_append) (simp add: t3 del: fan_out.simps)
    have s: "convergenceSenders ?c' = removeAll node (convergenceSenders c) @ [node]"
      using fan_out_single_failure [OF sf2, of False] by (simp del: fan_out.simps)
    have m: "map_of (store ?c') (ID bp) = Some (AddConstraint bp Contraindicated)"
      by (simp add: update_conv del: fan_out.simps)
    have cl: "closed_senders (new_events c ?c') = [node]"
             "registered_senders (new_events c ?c') = [node]"
      unfolding n by simp_all
    show ?thesis
      using f n s m cl by (intro exI [of _ ?c']) (simp del: fan_out.simps)
  qed
  show ?thesis
    using single by (simp add: fan_out_trace attempt_events_def del: fan_out.simps)
qed

theorem send_failure_restarts_sender_witness:
  "candidates (this_node True) (pack (primary_to ep_peer ep_elsewhere {}) [payload_block]) = [sender1]
   \<and> SendFails (this_node True) sender1
         (Bundle (pack (primary_to ep_peer ep_elsewhere {}) [payload_block]))
   \<and> (\<exists>c'. forward_send (this_node True) (pack (primary_to ep_peer ep_elsewhere {}) [payload_block])
              = Inr (AddConstraint (pack (primary_to ep_peer ep_elsewhere {}) [payload_block])
                       Contraindicated, c')
            \<and> convergenceSenders c' = [sender1]
            \<and> closed_senders (new_events (this_node True) c') = [sender1]
            \<and> registered_senders (new_events (this_node True) c') = [sender1])"
proof -
  let ?bp = "pack (primary_to ep_peer ep_elsewhere {}) [payload_block]"
  have cd: "candidates (this_node True) ?bp = [sender1]"
    by (simp add: candidates_def senderForDestination_def this_node_def pack_def primary_to_def
        sender1_def)
  have sf: "SendFails (this_node True) sender1 (Bundle ?bp)"
    by (simp add: this_node_def)
  have rg: "removeAll sender1 (convergenceSenders (this_node True)) @ [sender1] = [sender1]"
    by (simp add: this_node_def)
  show ?thesis
    using cd sf rg
      send_failure_restarts_sender [of "Bundle ?bp" "[sender1]" False "this_node True" sender1 ?bp]
    by auto
qed

text \<open>
  The sender registered after a failed send is the very instance that failed and was
  closed, not a new one for the same address.
\<close>

theorem restart_registers_same_instance_counterexample:
  "closed_senders
     (returned_trace (forward (this_node True)
                        (pack (primary_to ep_peer ep_elsewhere {}) [payload_block]))) = [sender1]
   \<and> registered_senders
       (returned_trace (forward (this_node True)
                          (pack (primary_to ep_peer ep_elsewhere {}) [payload_block]))) = [sender1]
   \<and> returned_senders (forward (this_node True)
                          (pack (primary_to ep_peer ep_elsewhere {}) [payload_block])) = [sender1]
   \<and> returned_constraints (forward (this_node True)
                              (pack (primary_to ep_peer ep_elsewhere {}) [payload_block]))
       = {ForwardPending, Contraindicated}"
  by (simp add: returned_trace_def returned_senders_def returned_constraints_def scenario_defs
      stage_defs insert_commute)

section \<open>Building a bundle\<close>

lemma NewBundle_parts:
  "NewBundle checkValid p cs = Inr b \<Longrightarrow> PrimaryBlock b = p \<and> CanonicalBlocks b = cs"
  by (auto simp: NewBundle_def Let_def split: option.splits)

lemma crc_keeps_endpoints:
  "ReportTo (PrimaryBlock (CalculateCRC checksum (SetCRCType b t))) = ReportTo (PrimaryBlock b)"
  "SourceNode (PrimaryBlock (CalculateCRC checksum (SetCRCType b t))) = SourceNode (PrimaryBlock b)"
  "Destination (PrimaryBlock (CalculateCRC checksum (SetCRCType b t))) = Destination (PrimaryBlock b)"
  by (simp_all add: CalculateCRC_def SetCRCType_def)

text \<open>
  C10, as the code has it. For a builder with no earlier error, \<open>Build\<close> returns an error
  exactly when the source node is unset, the destination is unset, or the bundle
  constructor refuses the primary block (with the report-to default filled in) and the
  canonical blocks; an unset source or destination gives the builder's own error. When
  \<open>Build\<close> succeeds and the report-to endpoint was unset, the report-to of the built bundle
  is its source node.
\<close>

theorem Build_error_cases:
  assumes "err bldr = None"
  shows "(isl (fst (Build checkValid checksum bldr)) \<longleftrightarrow>
            SourceNode (primary bldr) = EndpointID_zero
          \<or> Destination (primary bldr) = EndpointID_zero
          \<or> isl (NewBundle checkValid
                   ((primary bldr)\<lparr>ReportTo := (if ReportTo (primary bldr) = EndpointID_zero
                                                then SourceNode (primary bldr)
                                                else ReportTo (primary bldr))\<rparr>)
                   (canonicals bldr)))
       \<and> (SourceNode (primary bldr) = EndpointID_zero \<or> Destination (primary bldr) = EndpointID_zero
            \<longrightarrow> fst (Build checkValid checksum bldr) = Inl ''Both Source and Destination must be set'')
       \<and> (\<forall>bndl. fst (Build checkValid checksum bldr) = Inr bndl
                 \<and> ReportTo (primary bldr) = EndpointID_zero \<longrightarrow>
             ReportTo (PrimaryBlock bndl) = SourceNode (PrimaryBlock bndl)
             \<and> SourceNode (PrimaryBlock bndl) = SourceNode (primary bldr))"
proof (cases "ReportTo (primary bldr) = EndpointID_zero")
  case True
  let ?p = "(primary bldr)\<lparr>ReportTo := SourceNode (primary bldr)\<rparr>"
  show ?thesis
  proof (cases "NewBundle checkValid ?p (canonicals bldr)")
    case (Inl e)
    then show ?thesis
      using assms True by (auto simp: Build_def Let_def)
  next
    case (Inr b)
    then have "PrimaryBlock b = ?p" using NewBundle_parts by blast
    then show ?thesis
      using assms True Inr by (auto simp: Build_def Let_def crc_keeps_endpoints)
  qed
next
  case False
  show ?thesis
  proof (cases "NewBundle checkValid (primary bldr) (canonicals bldr)")
    case (Inl e)
    then show ?thesis
      using assms False by (auto simp: Build_def Let_def)
  next
    case (Inr b)
    then show ?thesis
      using assms False by (auto simp: Build_def Let_def)
  qed
qed

theorem Build_error_cases_witness:
  "err (builder_to ep_peer) = None
   \<and> ReportTo (primary (builder_to ep_peer)) = EndpointID_zero
   \<and> (\<exists>bndl. fst (Build check_destination (\<lambda>b. 0) (builder_to ep_peer)) = Inr bndl
            \<and> ReportTo (PrimaryBlock bndl) = SourceNode (PrimaryBlock bndl)
            \<and> SourceNode (PrimaryBlock bndl) = ep_self)"
proof -
  have e: "err (builder_to ep_peer) = None"
    by (simp add: builder_to_def Destination_set_def Source_set_def Builder_def)
  have r: "ReportTo (primary (builder_to ep_peer)) = EndpointID_zero"
    by (simp add: builder_to_def Destination_set_def Source_set_def Builder_def PrimaryBlock_zero_def)
  have s: "SourceNode (primary (builder_to ep_peer)) = ep_self"
    by (simp add: builder_to_def Destination_set_def Source_set_def Builder_def PrimaryBlock_zero_def)
  have b: "\<exists>bndl. fst (Build check_destination (\<lambda>b. 0) (builder_to ep_peer)) = Inr bndl"
    by (simp add: Build_def NewBundle_def check_destination_def builder_to_def Destination_set_def
        Source_set_def Builder_def PrimaryBlock_zero_def EndpointID_zero_def ep_self_def ep_peer_def
        DtnNone_def Let_def)
  show ?thesis
    using e r s b Build_error_cases [OF e, of check_destination "\<lambda>b. 0"] by auto
qed

text \<open>
  With source and destination both set, \<open>Build\<close> still returns an error when the constructor
  refuses the bundle, here for the destination \<^verbatim>\<open>dtn:none\<close>.
\<close>

theorem Build_error_counterexample:
  "err (builder_to DtnNone) = None
   \<and> SourceNode (primary (builder_to DtnNone)) \<noteq> EndpointID_zero
   \<and> Destination (primary (builder_to DtnNone)) \<noteq> EndpointID_zero
   \<and> fst (Build check_destination (\<lambda>b. 0) (builder_to DtnNone))
       = Inl ''destination must not be dtn:none''"
  by (simp add: Build_def NewBundle_def check_destination_def builder_to_def Destination_set_def
      Source_set_def Builder_def PrimaryBlock_zero_def EndpointID_zero_def ep_self_def
      DtnNone_def Let_def)

end
